theory Spec2Isabelle
  imports Main
begin

section \<open>Python values used by the two front-ends\<close>

text \<open>
  The repository has two front-ends: \<^verbatim>\<open>transcribe.py\<close> (command line, names prefixed
  \<open>cli_\<close> below) and \<^verbatim>\<open>gui_transcribe.py\<close> (desktop, names prefixed \<open>gui_\<close>).
  Both define \<^verbatim>\<open>srt_ts\<close>, \<^verbatim>\<open>write_txt\<close>, \<^verbatim>\<open>write_srt\<close> and \<^verbatim>\<open>write_vtt\<close>;
  the prefix tells the two apart.
\<close>

datatype error = OverflowError | ValueError | OSError

subsection \<open>Floats\<close>

text \<open>
  A Python float is an IEEE 754 binary64 number. \<open>Float s m e\<close> stands for
  \<open>(-1)\<^sup>s * m * 2\<^sup>e\<close>; every finite double has such a form with \<open>m < 2\<^sup>5\<^sup>3\<close> and
  \<open>-1074 \<le> e \<le> 971\<close>, and every such triple is a double.
\<close>

datatype pyfloat = Float bool nat int | Inf bool | NaN

fun valid_float :: "pyfloat \<Rightarrow> bool" where
  "valid_float (Float s m e) = (m < 2 ^ 53 \<and> - 1074 \<le> e \<and> e \<le> 971)"
| "valid_float (Inf s) = True"
| "valid_float NaN = True"

text \<open>\<^verbatim>\<open>x < 0\<close> on floats: false on NaN and on \<^verbatim>\<open>-0.0\<close>.\<close>

fun float_neg :: "pyfloat \<Rightarrow> bool" where
  "float_neg (Float s m e) = (s \<and> m \<noteq> 0)"
| "float_neg (Inf s) = s"
| "float_neg NaN = False"

fun bitlen :: "nat \<Rightarrow> nat" where
  "bitlen n = (if n = 0 then 0 else 1 + bitlen (n div 2))"

declare bitlen.simps [simp del]

text \<open>Division of naturals rounded to the nearest quotient, ties to the even one.\<close>

definition rhe_div :: "nat \<Rightarrow> nat \<Rightarrow> nat" where
  "rhe_div M d =
     (let q = M div d; r = M mod d
      in if 2 * r > d \<or> (2 * r = d \<and> odd q) then q + 1 else q)"

text \<open>
  The double nearest to \<open>(-1)\<^sup>s * M * 2\<^sup>e\<close> for \<open>e \<ge> -1074\<close> (round to nearest,
  ties to even, overflow to infinity): the result of one IEEE operation whose exact value
  is that number.
\<close>

definition round_to_double :: "bool \<Rightarrow> nat \<Rightarrow> int \<Rightarrow> pyfloat" where
  "round_to_double s M e =
     (let k = bitlen M - 53;
          m1 = rhe_div M (2 ^ k);
          m2 = (if m1 = 2 ^ 53 then 2 ^ 52 else m1);
          e2 = (if m1 = 2 ^ 53 then e + int k + 1 else e + int k)
      in if e2 > 971 then Inf s else Float s m2 e2)"

text \<open>\<^verbatim>\<open>x * c\<close> for a float \<open>x\<close> and a positive integer constant \<open>c\<close> that is a double.\<close>

fun fmul :: "pyfloat \<Rightarrow> nat \<Rightarrow> pyfloat" where
  "fmul (Float s m e) c = round_to_double s (m * c) e"
| "fmul (Inf s) c = Inf s"
| "fmul NaN c = NaN"

text \<open>
  \<^verbatim>\<open>int(round(x))\<close>: \<^verbatim>\<open>round\<close> with one argument rounds a float to the nearest integer,
  ties to even, and raises on infinities and NaN.
\<close>

fun py_round :: "pyfloat \<Rightarrow> error + int" where
  "py_round (Float s m e) =
     (let n = (if 0 \<le> e then m * 2 ^ nat e else rhe_div m (2 ^ nat (- e)))
      in Inr (if s then - int n else int n))"
| "py_round (Inf s) = Inl OverflowError"
| "py_round NaN = Inl ValueError"

subsection \<open>Integer formatting\<close>

definition digit_char :: "nat \<Rightarrow> char" where
  "digit_char d = ''0123456789'' ! (d mod 10)"

fun show_nat :: "nat \<Rightarrow> string" where
  "show_nat n = (if n < 10 then [digit_char n] else show_nat (n div 10) @ [digit_char (n mod 10)])"

declare show_nat.simps [simp del]

text \<open>\<^verbatim>\<open>f"{n:0wd}"\<close> and \<^verbatim>\<open>"%0wd" % n\<close>: decimal, zero-filled to width \<open>w\<close>, sign first.\<close>

definition zpad :: "nat \<Rightarrow> int \<Rightarrow> string" where
  "zpad w n =
     (let ds = show_nat (nat \<bar>n\<bar>)
      in if n < 0 then CHR ''-'' # replicate (w - 1 - length ds) CHR ''0'' @ ds
         else replicate (w - length ds) CHR ''0'' @ ds)"

section \<open>Timestamp formatting\<close>

subsection \<open>Command line: \<^verbatim>\<open>_format_hhmmss_ms\<close>, \<^verbatim>\<open>srt_ts\<close>, \<^verbatim>\<open>vtt_ts\<close>\<close>

text \<open>The part of \<^verbatim>\<open>_format_hhmmss_ms\<close> after the clamp, on the millisecond count.\<close>

definition hhmmss_of_ms :: "int \<Rightarrow> string \<Rightarrow> string" where
  "hhmmss_of_ms total_ms sep =
     (let hh = total_ms div 3600000; rem1 = total_ms mod 3600000;
          mm = rem1 div 60000; rem2 = rem1 mod 60000;
          ss = rem2 div 1000; ms = rem2 mod 1000
      in zpad 2 hh @ '':'' @ zpad 2 mm @ '':'' @ zpad 2 ss @ sep @ zpad 3 ms)"

definition total_ms_of :: "pyfloat \<Rightarrow> error + int" where
  "total_ms_of seconds =
     (case py_round (fmul seconds 1000) of
        Inl err \<Rightarrow> Inl err
      | Inr total_ms \<Rightarrow> Inr (if total_ms < 0 then 0 else total_ms))"

definition format_hhmmss_ms :: "pyfloat \<Rightarrow> string \<Rightarrow> error + string" where
  "format_hhmmss_ms seconds sep =
     (case total_ms_of seconds of
        Inl err \<Rightarrow> Inl err
      | Inr total_ms \<Rightarrow> Inr (hhmmss_of_ms total_ms sep))"

definition cli_srt_ts :: "pyfloat \<Rightarrow> error + string" where
  "cli_srt_ts s = format_hhmmss_ms s '',''"

definition cli_vtt_ts :: "pyfloat \<Rightarrow> error + string" where
  "cli_vtt_ts s = format_hhmmss_ms s ''.''"

subsection \<open>Desktop: \<^verbatim>\<open>srt_ts\<close> and \<^verbatim>\<open>vtt_ts\<close> over \<^verbatim>\<open>datetime.timedelta\<close>\<close>

record timedelta =
  days :: int
  seconds :: int
  microseconds :: int

text \<open>
  \<^verbatim>\<open>timedelta(seconds=s)\<close> for a float \<open>s\<close>: the whole seconds are taken exactly, the
  fractional part is multiplied by \<open>10\<^sup>6\<close> as a float and rounded to a whole number of
  microseconds (ties to even); the total is normalised to \<open>0 \<le> microseconds < 10\<^sup>6\<close>,
  \<open>0 \<le> seconds < 86400\<close>, and more than 999999999 days either way is an OverflowError.
\<close>

definition timedelta_normalise :: "int \<Rightarrow> error + timedelta" where
  "timedelta_normalise total_us =
     (let secs = total_us div 1000000;
          d = secs div 86400
      in if \<bar>d\<bar> > 999999999 then Inl OverflowError
         else Inr \<lparr>days = d, seconds = secs mod 86400, microseconds = total_us mod 1000000\<rparr>)"

definition timedelta_of_seconds :: "pyfloat \<Rightarrow> error + timedelta" where
  "timedelta_of_seconds s =
     (case s of
        Inf sg \<Rightarrow> Inl OverflowError
      | NaN \<Rightarrow> Inl ValueError
      | Float sg m e \<Rightarrow>
          (let whole = (if 0 \<le> e then m * 2 ^ nat e else m div 2 ^ nat (- e));
               frac = (if 0 \<le> e then Float sg 0 0 else Float sg (m mod 2 ^ nat (- e)) e)
           in case py_round (fmul frac 1000000) of
                Inl err \<Rightarrow> Inl err
              | Inr us \<Rightarrow>
                  timedelta_normalise ((if sg then - int whole else int whole) * 1000000 + us)))"

text \<open>\<^verbatim>\<open>str(td)\<close>: \<^verbatim>\<open>[D day[s], ]H:MM:SS[.UUUUUU]\<close>.\<close>

definition timedelta_str :: "timedelta \<Rightarrow> string" where
  "timedelta_str td =
     (let mm = seconds td div 60; ss = seconds td mod 60;
          hh = mm div 60; mm2 = mm mod 60;
          s0 = zpad 0 hh @ '':'' @ zpad 2 mm2 @ '':'' @ zpad 2 ss;
          s1 = (if days td \<noteq> 0
                then zpad 0 (days td) @ '' day'' @ (if \<bar>days td\<bar> \<noteq> 1 then ''s'' else '''') @ '', '' @ s0
                else s0)
      in if microseconds td \<noteq> 0 then s1 @ ''.'' @ zpad 6 (microseconds td) else s1)"

text \<open>\<^verbatim>\<open>s[:-3]\<close> and \<^verbatim>\<open>s.replace('.', ',')\<close>.\<close>

definition drop_last3 :: "string \<Rightarrow> string" where
  "drop_last3 s = take (length s - 3) s"

definition replace_dot :: "string \<Rightarrow> string" where
  "replace_dot s = map (\<lambda>c. if c = CHR ''.'' then CHR '','' else c) s"

definition gui_vtt_ts :: "pyfloat \<Rightarrow> error + string" where
  "gui_vtt_ts s =
     (case timedelta_of_seconds s of
        Inl err \<Rightarrow> Inl err
      | Inr td \<Rightarrow> Inr (drop_last3 (timedelta_str td)))"

definition gui_srt_ts :: "pyfloat \<Rightarrow> error + string" where
  "gui_srt_ts s =
     (case timedelta_of_seconds s of
        Inl err \<Rightarrow> Inl err
      | Inr td \<Rightarrow> Inr (replace_dot (drop_last3 (timedelta_str td))))"

section \<open>Segments and the three writers\<close>

text \<open>
  Strings are lists of \<open>char\<close>, each standing for a code point below 256; a file holds
  the text written to it. \<^verbatim>\<open>str.strip()\<close> removes leading and trailing whitespace,
  which among these code points is 9 to 13, 28 to 32, 133 and 160.
\<close>

definition isspace :: "char \<Rightarrow> bool" where
  "isspace c =
     (let n = (of_char c :: nat)
      in (9 \<le> n \<and> n \<le> 13) \<or> (28 \<le> n \<and> n \<le> 32) \<or> n = 133 \<or> n = 160)"

definition strip :: "string \<Rightarrow> string" where
  "strip s = rev (dropWhile isspace (rev (dropWhile isspace s)))"

text \<open>A segment of the transcription library: \<^verbatim>\<open>seg.start\<close>, \<^verbatim>\<open>seg.end\<close>, \<^verbatim>\<open>seg.text\<close>.\<close>

record segment =
  seg_start :: pyfloat
  seg_end :: pyfloat
  seg_text :: string

subsection \<open>Files and the environment\<close>

text \<open>
  \<open>files\<close> maps a file to its text; the writers are given the key of the file they
  open. In the statements on the command line and in the first statements on
  \<^verbatim>\<open>run\<close> the key is the path value handed to \<^verbatim>\<open>open\<close>, every path value its
  own file; the statements on what a retry leaves untouched are on a disk where the
  operating system resolves path values, defined further down. \<open>dirs\<close>
  are the directories made so far. Whether an operation on the file system fails is the
  environment's choice: \<open>faults\<close> lists the outcome of each operation to come, in order,
  and an exhausted list means success. \<open>Fail_open\<close> is an \<^verbatim>\<open>OSError\<close> raised by
  \<^verbatim>\<open>open\<close> (the file is untouched); \<open>Fail_write n\<close> is an \<^verbatim>\<open>OSError\<close> raised after
  \<^verbatim>\<open>open(path, "w")\<close> has truncated the file and \<open>n\<close> characters have reached it.
\<close>

datatype io_outcome = Io_ok | Fail_open | Fail_write nat

record 'p world =
  files :: "'p \<Rightarrow> string option"
  dirs :: "'p set"
  faults :: "io_outcome list"

definition next_fault :: "'p world \<Rightarrow> io_outcome" where
  "next_fault w = (case faults w of [] \<Rightarrow> Io_ok | f # fs \<Rightarrow> f)"

definition consume :: "'p world \<Rightarrow> 'p world" where
  "consume w = w\<lparr>faults := tl (faults w)\<rparr>"

text \<open>
  \<^verbatim>\<open>with open(path, "w", encoding="utf-8") as f: ...\<close> where the body has produced the text
  \<open>fst body\<close> and then either finished or raised \<open>snd body\<close>.
\<close>

definition open_write :: "'p \<Rightarrow> string \<times> error option \<Rightarrow> 'p world \<Rightarrow> 'p world \<times> error option" where
  "open_write path body w =
     (case next_fault w of
        Fail_open \<Rightarrow> (consume w, Some OSError)
      | Fail_write n \<Rightarrow>
          ((consume w)\<lparr>files := (files w)(path \<mapsto> take n (fst body))\<rparr>, Some OSError)
      | Io_ok \<Rightarrow> ((consume w)\<lparr>files := (files w)(path \<mapsto> fst body)\<rparr>, snd body))"

subsection \<open>\<^verbatim>\<open>write_txt\<close>, \<^verbatim>\<open>write_srt\<close>, \<^verbatim>\<open>write_vtt\<close>\<close>

text \<open>
  The loops of the writers, threading the text written so far. The two front-ends have
  the same three functions word for word; only the \<^verbatim>\<open>srt_ts\<close> and \<^verbatim>\<open>vtt_ts\<close> they
  call differ, so the timestamp function is the parameter \<open>ts\<close>.
\<close>

fun txt_loop :: "segment list \<Rightarrow> string \<Rightarrow> string \<times> error option" where
  "txt_loop [] buf = (buf, None)"
| "txt_loop (seg # segs) buf = txt_loop segs (buf @ strip (seg_text seg) @ ''\<newline>'')"

fun srt_loop ::
  "(pyfloat \<Rightarrow> error + string) \<Rightarrow> nat \<Rightarrow> segment list \<Rightarrow> string \<Rightarrow> string \<times> error option" where
  "srt_loop ts i [] buf = (buf, None)"
| "srt_loop ts i (seg # segs) buf =
     (case ts (seg_start seg) of
        Inl err \<Rightarrow> (buf, Some err)
      | Inr a \<Rightarrow>
          (case ts (seg_end seg) of
             Inl err \<Rightarrow> (buf, Some err)
           | Inr b \<Rightarrow>
               srt_loop ts (i + 1) segs
                 (buf @ show_nat i @ ''\<newline>'' @ a @ '' --> '' @ b @ ''\<newline>''
                      @ strip (seg_text seg) @ ''\<newline>\<newline>'')))"

fun vtt_loop ::
  "(pyfloat \<Rightarrow> error + string) \<Rightarrow> segment list \<Rightarrow> string \<Rightarrow> string \<times> error option" where
  "vtt_loop ts [] buf = (buf, None)"
| "vtt_loop ts (seg # segs) buf =
     (case ts (seg_start seg) of
        Inl err \<Rightarrow> (buf, Some err)
      | Inr a \<Rightarrow>
          (case ts (seg_end seg) of
             Inl err \<Rightarrow> (buf, Some err)
           | Inr b \<Rightarrow>
               vtt_loop ts segs
                 (buf @ a @ '' --> '' @ b @ ''\<newline>'' @ strip (seg_text seg)
                      @ ''\<newline>\<newline>'')))"

definition write_txt :: "'p \<Rightarrow> segment list \<Rightarrow> 'p world \<Rightarrow> 'p world \<times> error option" where
  "write_txt path segs w = open_write path (txt_loop segs []) w"

definition write_srt ::
  "(pyfloat \<Rightarrow> error + string) \<Rightarrow> 'p \<Rightarrow> segment list \<Rightarrow> 'p world \<Rightarrow> 'p world \<times> error option" where
  "write_srt ts path segs w = open_write path (srt_loop ts 1 segs []) w"

definition write_vtt ::
  "(pyfloat \<Rightarrow> error + string) \<Rightarrow> 'p \<Rightarrow> segment list \<Rightarrow> 'p world \<Rightarrow> 'p world \<times> error option" where
  "write_vtt ts path segs w = open_write path (vtt_loop ts segs ''WEBVTT\<newline>\<newline>'') w"

definition cli_write_srt :: "string \<Rightarrow> segment list \<Rightarrow> string world \<Rightarrow> string world \<times> error option" where
  "cli_write_srt = write_srt cli_srt_ts"

definition cli_write_vtt :: "string \<Rightarrow> segment list \<Rightarrow> string world \<Rightarrow> string world \<times> error option" where
  "cli_write_vtt = write_vtt cli_vtt_ts"

text \<open>\<^verbatim>\<open>", ".join(xs)\<close>.\<close>

fun join_comma :: "string list \<Rightarrow> string" where
  "join_comma [] = []"
| "join_comma [x] = x"
| "join_comma (x # y # ys) = x @ '', '' @ join_comma (y # ys)"

section \<open>Command line: the output part of \<^verbatim>\<open>main\<close>\<close>

text \<open>
  Lines 100 to 117 of \<^verbatim>\<open>transcribe.py\<close>, with the segments already materialised: the
  three writes, then the list \<^verbatim>\<open>wrote\<close>, printed as \<^verbatim>\<open>"Wrote: " + ", ".join(wrote)\<close>.
  No exception is caught, so the first error ends the program.
\<close>

definition cli_main_outputs ::
  "string \<Rightarrow> bool \<Rightarrow> bool \<Rightarrow> segment list \<Rightarrow> string world \<Rightarrow> string world \<times> (error + string list)" where
  "cli_main_outputs base srt vtt segs w =
     (let txt_path = base @ ''.txt''; srt_path = base @ ''.srt''; vtt_path = base @ ''.vtt''
      in case write_txt txt_path segs w of
           (w1, Some err) \<Rightarrow> (w1, Inl err)
         | (w1, None) \<Rightarrow>
             (case (if srt then cli_write_srt srt_path segs w1 else (w1, None)) of
                (w2, Some err) \<Rightarrow> (w2, Inl err)
              | (w2, None) \<Rightarrow>
                  (case (if vtt then cli_write_vtt vtt_path segs w2 else (w2, None)) of
                     (w3, Some err) \<Rightarrow> (w3, Inl err)
                   | (w3, None) \<Rightarrow>
                       (w3, Inr ([txt_path] @ (if srt then [srt_path] else [])
                                  @ (if vtt then [vtt_path] else []))))))"

definition cli_summary :: "string list \<Rightarrow> string" where
  "cli_summary wrote = ''Wrote: '' @ join_comma wrote"

section \<open>Desktop: paths and \<^verbatim>\<open>TranscribeWorker.run\<close>\<close>

subsection \<open>\<^verbatim>\<open>pathlib.Path\<close> on POSIX\<close>

text \<open>
  A path is its root (\<^verbatim>\<open>""\<close>, \<^verbatim>\<open>"/"\<close> or \<^verbatim>\<open>"//"\<close>) and its components. \<^verbatim>\<open>Path(s)\<close>
  drops empty components and \<^verbatim>\<open>"."\<close> components; \<^verbatim>\<open>str\<close> of a path with no root and
  no component is \<^verbatim>\<open>"."\<close>.
\<close>

datatype path = Path string "string list"

fun split_on :: "char \<Rightarrow> string \<Rightarrow> string list" where
  "split_on c [] = [[]]"
| "split_on c (x # xs) =
     (if x = c then [] # split_on c xs
      else (case split_on c xs of [] \<Rightarrow> [[x]] | y # ys \<Rightarrow> (x # y) # ys))"

definition path_root :: "string \<Rightarrow> string" where
  "path_root s =
     (if take 1 s = ''/''
      then (if take 2 s = ''//'' \<and> take 3 s \<noteq> ''///'' then ''//'' else ''/'')
      else [])"

definition path_parts :: "string \<Rightarrow> string list" where
  "path_parts s = filter (\<lambda>p. p \<noteq> [] \<and> p \<noteq> ''.'') (split_on CHR ''/'' s)"

definition Path_of :: "string \<Rightarrow> path" where
  "Path_of s = Path (path_root s) (path_parts s)"

fun join_slash :: "string list \<Rightarrow> string" where
  "join_slash [] = []"
| "join_slash [x] = x"
| "join_slash (x # y # ys) = x @ ''/'' @ join_slash (y # ys)"

fun path_str :: "path \<Rightarrow> string" where
  "path_str (Path r ps) = (if r @ join_slash ps = [] then ''.'' else r @ join_slash ps)"

text \<open>\<^verbatim>\<open>p / s\<close>: an absolute \<open>s\<close> replaces \<open>p\<close>, a relative one adds its components.\<close>

fun joinpath :: "path \<Rightarrow> string \<Rightarrow> path" where
  "joinpath (Path r ps) s =
     (if path_root s \<noteq> [] then Path_of s else Path r (ps @ path_parts s))"

text \<open>\<^verbatim>\<open>DEFAULT_OUT = Path.home() / "WhisperLite"\<close>; the home directory is a parameter.\<close>

definition DEFAULT_OUT :: "path \<Rightarrow> path" where
  "DEFAULT_OUT home = joinpath home ''WhisperLite''"

text \<open>
  \<^verbatim>\<open>p.mkdir(parents=True, exist_ok=True)\<close>: unless the environment refuses, the directory
  and all its parents exist afterwards; an existing directory is no error.
\<close>

fun ancestors :: "path \<Rightarrow> path list" where
  "ancestors (Path r ps) = map (\<lambda>k. Path r (take k ps)) [0 ..< Suc (length ps)]"

definition mkdir_p :: "path \<Rightarrow> path world \<Rightarrow> path world \<times> error option" where
  "mkdir_p p w =
     (case next_fault w of
        Io_ok \<Rightarrow> ((consume w)\<lparr>dirs := dirs w \<union> set (ancestors p)\<rparr>, None)
      | Fail_open \<Rightarrow> (consume w, Some OSError)
      | Fail_write n \<Rightarrow> (consume w, Some OSError))"

subsection \<open>\<^verbatim>\<open>TranscribeWorker.run\<close>\<close>

datatype signal = Done string | Failed error

text \<open>Lines 90 to 92: the output directory, from the \<^verbatim>\<open>out_dir\<close> given to the worker.\<close>

definition resolve_out :: "path \<Rightarrow> string \<Rightarrow> path" where
  "resolve_out home out_dir =
     (let out = Path_of out_dir
      in if path_str out = ''/'' \<or> path_str out = [] then DEFAULT_OUT home else out)"

definition gui_write_srt :: "path \<Rightarrow> segment list \<Rightarrow> path world \<Rightarrow> path world \<times> error option" where
  "gui_write_srt = write_srt gui_srt_ts"

definition gui_write_vtt :: "path \<Rightarrow> segment list \<Rightarrow> path world \<Rightarrow> path world \<times> error option" where
  "gui_write_vtt = write_vtt gui_vtt_ts"

text \<open>Lines 118 to 126, the body of the inner \<^verbatim>\<open>try\<close>; the result is the text of \<^verbatim>\<open>done\<close>.\<close>

definition gui_try_writes ::
  "path \<Rightarrow> string \<Rightarrow> bool \<Rightarrow> bool \<Rightarrow> segment list \<Rightarrow> path world \<Rightarrow> path world \<times> (error + string)" where
  "gui_try_writes out base srt vtt segs w =
     (let txt_path = joinpath out (base @ ''.txt'');
          srt_path = joinpath out (base @ ''.srt'');
          vtt_path = joinpath out (base @ ''.vtt'')
      in case write_txt txt_path segs w of
           (w1, Some err) \<Rightarrow> (w1, Inl err)
         | (w1, None) \<Rightarrow>
             (case (if srt then gui_write_srt srt_path segs w1 else (w1, None)) of
                (w2, Some err) \<Rightarrow> (w2, Inl err)
              | (w2, None) \<Rightarrow>
                  (case (if vtt then gui_write_vtt vtt_path segs w2 else (w2, None)) of
                     (w3, Some err) \<Rightarrow> (w3, Inl err)
                   | (w3, None) \<Rightarrow>
                       (w3, Inr (''Wrote: '' @ join_comma
                          ([path_str txt_path] @ (if srt then [path_str srt_path] else [])
                            @ (if vtt then [path_str vtt_path] else [])))))))"

text \<open>Lines 128 to 137, the handler of \<^verbatim>\<open>OSError\<close>.\<close>

definition gui_fallback ::
  "path \<Rightarrow> string \<Rightarrow> bool \<Rightarrow> bool \<Rightarrow> segment list \<Rightarrow> path world \<Rightarrow> path world \<times> (error + string)" where
  "gui_fallback home base srt vtt segs w =
     (let fb = DEFAULT_OUT home
      in case mkdir_p fb w of
           (w0, Some err) \<Rightarrow> (w0, Inl err)
         | (w0, None) \<Rightarrow>
             (let txt_fb = joinpath fb (base @ ''.txt'')
              in case write_txt txt_fb segs w0 of
                   (w1, Some err) \<Rightarrow> (w1, Inl err)
                 | (w1, None) \<Rightarrow>
                     (let msg = ''Wrote (fallback): '' @ path_str txt_fb;
                          srt_fb = joinpath fb (base @ ''.srt'')
                      in case (if srt then gui_write_srt srt_fb segs w1 else (w1, None)) of
                           (w2, Some err) \<Rightarrow> (w2, Inl err)
                         | (w2, None) \<Rightarrow>
                             (let msg2 = (if srt then msg @ '', '' @ path_str srt_fb else msg);
                                  vtt_fb = joinpath fb (base @ ''.vtt'')
                              in case (if vtt then gui_write_vtt vtt_fb segs w2 else (w2, None)) of
                                   (w3, Some err) \<Rightarrow> (w3, Inl err)
                                 | (w3, None) \<Rightarrow>
                                     (w3, Inr (if vtt then msg2 @ '', '' @ path_str vtt_fb
                                               else msg2))))))"

text \<open>
  \<^verbatim>\<open>run\<close>, with the segments of the transcription given (loading the model and
  transcribing are calls into the library). The outer handler turns every exception into
  the \<^verbatim>\<open>failed\<close> signal; the inner one catches \<^verbatim>\<open>OSError\<close> alone.
\<close>

definition gui_run ::
  "path \<Rightarrow> string \<Rightarrow> string \<Rightarrow> bool \<Rightarrow> bool \<Rightarrow> segment list \<Rightarrow> path world \<Rightarrow> path world \<times> signal" where
  "gui_run home out_dir base srt vtt segs w =
     (let out = resolve_out home out_dir
      in case mkdir_p out w of
           (w1, Some err) \<Rightarrow> (w1, Failed err)
         | (w1, None) \<Rightarrow>
             (case gui_try_writes out base srt vtt segs w1 of
                (w2, Inr msg) \<Rightarrow> (w2, Done msg)
              | (w2, Inl OSError) \<Rightarrow>
                  (case gui_fallback home base srt vtt segs w2 of
                     (w3, Inr msg) \<Rightarrow> (w3, Done msg)
                   | (w3, Inl err) \<Rightarrow> (w3, Failed err))
              | (w2, Inl err) \<Rightarrow> (w2, Failed err)))"

subsection \<open>\<^verbatim>\<open>run\<close> on a disk that resolves path values\<close>

text \<open>
  The operating system resolves the path value it is handed, through the working
  directory, \<^verbatim>\<open>..\<close> and links, so on disk two path values can name one file.
  \<open>node_of\<close> is that resolution, from path values to the files and directories of the
  disk; it is a parameter, fixed during a run. Below are \<^verbatim>\<open>mkdir\<close>, the two write
  sequences and \<^verbatim>\<open>run\<close> once more, word for word, with each path resolved where the
  source hands it to the operating system (\<^verbatim>\<open>mkdir\<close>, \<^verbatim>\<open>open\<close>) and kept as it is
  where the source prints it. The world is then keyed by the nodes of the disk. When every
  path value is its own node these are the definitions above.
\<close>

definition mkdir_p_on :: "(path \<Rightarrow> 'f) \<Rightarrow> path \<Rightarrow> 'f world \<Rightarrow> 'f world \<times> error option" where
  "mkdir_p_on node_of p w =
     (case next_fault w of
        Io_ok \<Rightarrow> ((consume w)\<lparr>dirs := dirs w \<union> node_of ` set (ancestors p)\<rparr>, None)
      | Fail_open \<Rightarrow> (consume w, Some OSError)
      | Fail_write n \<Rightarrow> (consume w, Some OSError))"

definition gui_try_writes_on ::
  "(path \<Rightarrow> 'f) \<Rightarrow> path \<Rightarrow> string \<Rightarrow> bool \<Rightarrow> bool \<Rightarrow> segment list \<Rightarrow> 'f world
     \<Rightarrow> 'f world \<times> (error + string)" where
  "gui_try_writes_on node_of out base srt vtt segs w =
     (let txt_path = joinpath out (base @ ''.txt'');
          srt_path = joinpath out (base @ ''.srt'');
          vtt_path = joinpath out (base @ ''.vtt'')
      in case write_txt (node_of txt_path) segs w of
           (w1, Some err) \<Rightarrow> (w1, Inl err)
         | (w1, None) \<Rightarrow>
             (case (if srt then write_srt gui_srt_ts (node_of srt_path) segs w1 else (w1, None)) of
                (w2, Some err) \<Rightarrow> (w2, Inl err)
              | (w2, None) \<Rightarrow>
                  (case (if vtt then write_vtt gui_vtt_ts (node_of vtt_path) segs w2
                         else (w2, None)) of
                     (w3, Some err) \<Rightarrow> (w3, Inl err)
                   | (w3, None) \<Rightarrow>
                       (w3, Inr (''Wrote: '' @ join_comma
                          ([path_str txt_path] @ (if srt then [path_str srt_path] else [])
                            @ (if vtt then [path_str vtt_path] else [])))))))"

definition gui_fallback_on ::
  "(path \<Rightarrow> 'f) \<Rightarrow> path \<Rightarrow> string \<Rightarrow> bool \<Rightarrow> bool \<Rightarrow> segment list \<Rightarrow> 'f world
     \<Rightarrow> 'f world \<times> (error + string)" where
  "gui_fallback_on node_of home base srt vtt segs w =
     (let fb = DEFAULT_OUT home
      in case mkdir_p_on node_of fb w of
           (w0, Some err) \<Rightarrow> (w0, Inl err)
         | (w0, None) \<Rightarrow>
             (let txt_fb = joinpath fb (base @ ''.txt'')
              in case write_txt (node_of txt_fb) segs w0 of
                   (w1, Some err) \<Rightarrow> (w1, Inl err)
                 | (w1, None) \<Rightarrow>
                     (let msg = ''Wrote (fallback): '' @ path_str txt_fb;
                          srt_fb = joinpath fb (base @ ''.srt'')
                      in case (if srt then write_srt gui_srt_ts (node_of srt_fb) segs w1
                               else (w1, None)) of
                           (w2, Some err) \<Rightarrow> (w2, Inl err)
                         | (w2, None) \<Rightarrow>
                             (let msg2 = (if srt then msg @ '', '' @ path_str srt_fb else msg);
                                  vtt_fb = joinpath fb (base @ ''.vtt'')
                              in case (if vtt then write_vtt gui_vtt_ts (node_of vtt_fb) segs w2
                                       else (w2, None)) of
                                   (w3, Some err) \<Rightarrow> (w3, Inl err)
                                 | (w3, None) \<Rightarrow>
                                     (w3, Inr (if vtt then msg2 @ '', '' @ path_str vtt_fb
                                               else msg2))))))"

definition gui_run_on ::
  "(path \<Rightarrow> 'f) \<Rightarrow> path \<Rightarrow> string \<Rightarrow> string \<Rightarrow> bool \<Rightarrow> bool \<Rightarrow> segment list \<Rightarrow> 'f world
     \<Rightarrow> 'f world \<times> signal" where
  "gui_run_on node_of home out_dir base srt vtt segs w =
     (let out = resolve_out home out_dir
      in case mkdir_p_on node_of out w of
           (w1, Some err) \<Rightarrow> (w1, Failed err)
         | (w1, None) \<Rightarrow>
             (case gui_try_writes_on node_of out base srt vtt segs w1 of
                (w2, Inr msg) \<Rightarrow> (w2, Done msg)
              | (w2, Inl OSError) \<Rightarrow>
                  (case gui_fallback_on node_of home base srt vtt segs w2 of
                     (w3, Inr msg) \<Rightarrow> (w3, Done msg)
                   | (w3, Inl err) \<Rightarrow> (w3, Failed err))
              | (w2, Inl err) \<Rightarrow> (w2, Failed err)))"

section \<open>Evaluation rules\<close>

lemma bitlen_0: "bitlen 0 = 0"
  by (simp add: bitlen.simps)

lemma bitlen_pos: "0 < n \<Longrightarrow> bitlen n = 1 + bitlen (n div 2)"
  by (subst bitlen.simps) simp

lemma show_nat_lt: "n < 10 \<Longrightarrow> show_nat n = [digit_char n]"
  by (subst show_nat.simps) simp

lemma show_nat_ge: "10 \<le> n \<Longrightarrow> show_nat n = show_nat (n div 10) @ [digit_char (n mod 10)]"
  by (subst show_nat.simps) simp

lemma replicate_num: "replicate (numeral k) x = x # replicate (pred_numeral k) x"
  by (simp add: numeral_eq_Suc)

lemmas ev_num = replicate_num bitlen_0 bitlen_pos show_nat_lt show_nat_ge digit_char_def zpad_def rhe_div_def
  round_to_double_def Let_def

lemmas ev_ts = ev_num hhmmss_of_ms_def total_ms_of_def format_hhmmss_ms_def
  cli_srt_ts_def cli_vtt_ts_def timedelta_normalise_def timedelta_of_seconds_def timedelta_str_def drop_last3_def
  replace_dot_def gui_vtt_ts_def gui_srt_ts_def

section \<open>Decimal digits\<close>

lemma digit_char_in: "digit_char d \<in> set ''0123456789''"
proof -
  have "d mod 10 < length ''0123456789''" by simp
  then show ?thesis unfolding digit_char_def by (rule nth_mem)
qed

lemma show_nat_digits: "set (show_nat n) \<subseteq> set ''0123456789''"
proof (induction n rule: show_nat.induct)
  case (1 n)
  show ?case
  proof (cases "n < 10")
    case True
    then show ?thesis using digit_char_in [of n] by (simp add: show_nat_lt)
  next
    case False
    then have "set (show_nat (n div 10)) \<subseteq> set ''0123456789''" using 1 by simp
    then show ?thesis using False digit_char_in [of "n mod 10"] by (simp add: show_nat_ge)
  qed
qed

lemma show_nat_nonempty: "show_nat n \<noteq> []"
  by (cases "n < 10") (simp_all add: show_nat_lt show_nat_ge)

lemma length_show_nat: "0 < k \<Longrightarrow> n < 10 ^ k \<Longrightarrow> length (show_nat n) \<le> k"
proof (induction k arbitrary: n)
  case 0
  then show ?case by simp
next
  case (Suc k)
  show ?case
  proof (cases "n < 10")
    case True
    then show ?thesis by (simp add: show_nat_lt)
  next
    case False
    then have k: "0 < k" using Suc.prems by (cases k) auto
    have "n div 10 < 10 ^ k" using Suc.prems by (simp add: less_mult_imp_div_less mult.commute)
    then have "length (show_nat (n div 10)) \<le> k" using Suc.IH k by blast
    then show ?thesis using False by (simp add: show_nat_ge)
  qed
qed

lemma length_zpad: "0 \<le> n \<Longrightarrow> 0 < w \<Longrightarrow> n < 10 ^ w \<Longrightarrow> length (zpad w n) = w"
proof -
  assume n: "0 \<le> n" and w: "0 < w" and b: "n < 10 ^ w"
  have "nat \<bar>n\<bar> < 10 ^ w" using n b by (simp add: nat_less_iff)
  then have "length (show_nat (nat \<bar>n\<bar>)) \<le> w" using w by (rule length_show_nat [rotated])
  then show ?thesis using n by (simp add: zpad_def Let_def)
qed

lemma length_zpad_ge: "0 \<le> n \<Longrightarrow> w \<le> length (zpad w n)"
  by (simp add: zpad_def Let_def)

lemma zpad_digits: "0 \<le> n \<Longrightarrow> set (zpad w n) \<subseteq> set ''0123456789''"
proof -
  assume "0 \<le> n"
  then have "set (zpad w n) \<subseteq> insert CHR ''0'' (set (show_nat (nat \<bar>n\<bar>)))"
    by (auto simp: zpad_def Let_def)
  then show ?thesis using show_nat_digits [of "nat \<bar>n\<bar>"] by auto
qed

section \<open>The command-line formatter\<close>

lemma hhmmss_of_ms_split:
  "\<exists>p z. length z = 3 \<and> set z \<subseteq> set ''0123456789'' \<and> (\<forall>sep. hhmmss_of_ms t sep = p @ sep @ z)"
proof -
  define ms where "ms = t mod 3600000 mod 60000 mod 1000"
  define p where "p = zpad 2 (t div 3600000) @ '':'' @ zpad 2 (t mod 3600000 div 60000) @ '':''
    @ zpad 2 (t mod 3600000 mod 60000 div 1000)"
  have ms: "0 \<le> ms" "ms < 10 ^ 3" by (simp_all add: ms_def)
  have "length (zpad 3 ms) = 3" using ms by (intro length_zpad) simp_all
  moreover have "set (zpad 3 ms) \<subseteq> set ''0123456789''" using ms(1) by (rule zpad_digits)
  moreover have "\<forall>sep. hhmmss_of_ms t sep = p @ sep @ zpad 3 ms"
    by (simp add: hhmmss_of_ms_def Let_def p_def ms_def)
  ultimately show ?thesis by blast
qed

lemma hhmmss_of_ms_shape:
  assumes "0 \<le> t"
  shows "\<exists>hh mm ss ms.
           hhmmss_of_ms t sep = hh @ '':'' @ mm @ '':'' @ ss @ sep @ ms
         \<and> hh = zpad 2 (t div 3600000) \<and> 2 \<le> length hh
         \<and> length mm = 2 \<and> length ss = 2 \<and> length ms = 3
         \<and> set (hh @ mm @ ss @ ms) \<subseteq> set ''0123456789''"
proof -
  define hh where "hh = t div 3600000"
  define mm where "mm = t mod 3600000 div 60000"
  define ss where "ss = t mod 3600000 mod 60000 div 1000"
  define ms where "ms = t mod 3600000 mod 60000 mod 1000"
  have hh: "0 \<le> hh" using assms by (simp add: hh_def)
  have mm: "0 \<le> mm" "mm < 10 ^ 2" by (simp_all add: mm_def) 
  have ss: "0 \<le> ss" "ss < 10 ^ 2" by (simp_all add: ss_def)
  have ms: "0 \<le> ms" "ms < 10 ^ 3" by (simp_all add: ms_def)
  have l: "2 \<le> length (zpad 2 hh)" "length (zpad 2 mm) = 2" "length (zpad 2 ss) = 2"
    "length (zpad 3 ms) = 3"
    using hh mm ss ms by (simp_all add: length_zpad_ge length_zpad)
  have d: "set (zpad 2 hh @ zpad 2 mm @ zpad 2 ss @ zpad 3 ms) \<subseteq> set ''0123456789''"
    using zpad_digits [OF hh, of 2] zpad_digits [OF mm(1), of 2] zpad_digits [OF ss(1), of 2]
      zpad_digits [OF ms(1), of 3] by simp
  have "hhmmss_of_ms t sep = zpad 2 hh @ '':'' @ zpad 2 mm @ '':'' @ zpad 2 ss @ sep @ zpad 3 ms"
    by (simp add: hhmmss_of_ms_def Let_def hh_def mm_def ss_def ms_def)
  then show ?thesis using l d hh_def by blast
qed

lemma total_ms_of_nonneg: "total_ms_of x = Inr t \<Longrightarrow> 0 \<le> t"
  by (auto simp: total_ms_of_def split: sum.splits if_splits)

lemma format_zero: "format_hhmmss_ms (Float False 0 0) sep = Inr (''00:00:00'' @ sep @ ''000'')"
  by (simp add: ev_ts)

lemma fmul_neg_cases:
  "(\<exists>m' e'. fmul (Float True m e) c = Float True m' e') \<or> fmul (Float True m e) c = Inf True"
  by (simp add: round_to_double_def Let_def)

lemma cli_negative_clamped:
  "float_neg x \<Longrightarrow>
     format_hhmmss_ms x sep = format_hhmmss_ms (Float False 0 0) sep
   \<or> format_hhmmss_ms x sep = Inl OverflowError"
proof (cases x)
  case (Float s m e)
  assume "float_neg x"
  then have s: "s" using Float by simp
  from fmul_neg_cases [of m e 1000] show ?thesis
  proof
    assume "\<exists>m' e'. fmul (Float True m e) 1000 = Float True m' e'"
    then obtain m' e' where f: "fmul (Float True m e) 1000 = Float True m' e'" by blast
    have "total_ms_of x = Inr 0"
      using Float s f by (simp add: total_ms_of_def Let_def)
    moreover have "total_ms_of (Float False 0 0) = Inr 0" by (simp add: ev_ts)
    ultimately show ?thesis by (simp add: format_hhmmss_ms_def)
  next
    assume "fmul (Float True m e) 1000 = Inf True"
    then show ?thesis using Float s by (simp add: format_hhmmss_ms_def total_ms_of_def)
  qed
next
  case (Inf s)
  assume "float_neg x"
  then show ?thesis using Inf by (simp add: format_hhmmss_ms_def total_ms_of_def)
next
  case NaN
  assume "float_neg x"
  then show ?thesis using NaN by simp
qed

lemma bitlen_le: "n < 2 ^ k \<Longrightarrow> bitlen n \<le> k"
proof (induction k arbitrary: n)
  case 0
  then show ?case by (simp add: bitlen_0)
next
  case (Suc k)
  show ?case
  proof (cases "n = 0")
    case True
    then show ?thesis by (simp add: bitlen_0)
  next
    case False
    have "n div 2 < 2 ^ k" using Suc.prems by auto
    then have "bitlen (n div 2) \<le> k" by (rule Suc.IH)
    then show ?thesis using False by (simp add: bitlen_pos)
  qed
qed

lemma cli_format_total:
  assumes "valid_float (Float s m e)" and "e \<le> 900"
  shows "\<exists>t. 0 \<le> t \<and> (\<forall>sep. format_hhmmss_ms (Float s m e) sep = Inr (hhmmss_of_ms t sep))"
proof -
  have "m * 1000 < 2 ^ 53 * 2 ^ 10" using assms(1) by (simp add: mult_strict_mono)
  then have "m * 1000 < 2 ^ 63" by simp
  then have "bitlen (m * 1000) \<le> 63" by (rule bitlen_le)
  then have "int (bitlen (m * 1000) - 53) \<le> 10" by simp
  then have "\<exists>m' e'. fmul (Float s m e) 1000 = Float s m' e'"
    using assms(2) by (auto simp: round_to_double_def Let_def)
  then obtain m' e' where "fmul (Float s m e) 1000 = Float s m' e'" by blast
  then obtain t where t: "total_ms_of (Float s m e) = Inr t"
    by (simp add: total_ms_of_def Let_def)
  then have "0 \<le> t" by (rule total_ms_of_nonneg)
  then show ?thesis using t by (auto simp: format_hhmmss_ms_def)
qed

section \<open>The position of the separator\<close>

lemma sep_position:
  assumes "length z = 3"
  shows "length (p @ [c] @ z) - 4 = length p"
    and "(p @ [c] @ z) ! length p = c"
    and "i \<noteq> length p \<Longrightarrow> (p @ [c] @ z) ! i = (p @ [d] @ z) ! i"
  using assms by (simp_all add: nth_append nth_Cons')

section \<open>Claims on the timestamp formatter\<close>

lemma cli_comma_period_differ_only_in_separator:
  "(\<forall>a b. cli_srt_ts x = Inr a \<and> cli_vtt_ts x = Inr b \<longrightarrow>
            length a = length b \<and> 4 \<le> length a
          \<and> a ! (length a - 4) = CHR '','' \<and> b ! (length a - 4) = CHR ''.''
          \<and> (\<forall>i < length a. i \<noteq> length a - 4 \<longrightarrow> a ! i = b ! i))
       \<and> (\<forall>err. cli_srt_ts x = Inl err \<longleftrightarrow> cli_vtt_ts x = Inl err)"
proof (intro conjI allI impI)
  fix a b
  assume ab: "cli_srt_ts x = Inr a \<and> cli_vtt_ts x = Inr b"
  then obtain t where t: "total_ms_of x = Inr t"
    by (auto simp: cli_srt_ts_def format_hhmmss_ms_def split: sum.splits)
  obtain p z where z: "length z = 3" and pz: "\<forall>sep. hhmmss_of_ms t sep = p @ sep @ z"
    using hhmmss_of_ms_split [of t] by blast
  have a: "a = p @ [CHR '',''] @ z" and b: "b = p @ [CHR ''.''] @ z"
    using ab t pz by (simp_all add: cli_srt_ts_def cli_vtt_ts_def format_hhmmss_ms_def)
  show "length a = length b" by (simp add: a b)
  show "4 \<le> length a" using z by (simp add: a)
  show "a ! (length a - 4) = CHR '',''"
    unfolding a sep_position(1) [OF z] by (rule sep_position(2) [OF z])
  show "b ! (length a - 4) = CHR ''.''"
    unfolding a sep_position(1) [OF z] unfolding b by (rule sep_position(2) [OF z])
  fix i
  assume "i < length a" and "i \<noteq> length a - 4"
  then have "i \<noteq> length p" unfolding a sep_position(1) [OF z] by simp
  then show "a ! i = b ! i" unfolding a b by (rule sep_position(3) [OF z])
next
  fix err
  show "cli_srt_ts x = Inl err \<longleftrightarrow> cli_vtt_ts x = Inl err"
    by (simp add: cli_srt_ts_def cli_vtt_ts_def format_hhmmss_ms_def split: sum.splits)
qed

text \<open>
  C7. The claim: for every seconds value at least zero the comma style and the period
  style give strings of the same length that differ in the separator between seconds and
  milliseconds, and nowhere else. The command-line formatter does so for every input
  (\<open>cli_comma_period_differ_only_in_separator\<close>: a comma and a period at the fourth
  position from the end, equal elsewhere). The desktop \<^verbatim>\<open>srt_ts\<close> and \<^verbatim>\<open>vtt_ts\<close> cut
  \<^verbatim>\<open>str(timedelta)\<close>, which has no fraction at a whole number of seconds: at one second
  both return \<open>"0:00"\<close>, the same string, with no separator and no milliseconds in it.
\<close>

theorem gui_styles_coincide_at_whole_seconds:
  "gui_srt_ts (Float False 1 0) = Inr ''0:00''
   \<and> gui_vtt_ts (Float False 1 0) = Inr ''0:00''
   \<and> gui_srt_ts (Float False 1 0) = gui_vtt_ts (Float False 1 0)
   \<and> cli_srt_ts (Float False 1 0) = Inr ''00:00:01,000''
   \<and> cli_vtt_ts (Float False 1 0) = Inr ''00:00:01.000''"
proof -
  have a: "gui_srt_ts (Float False 1 0) = Inr ''0:00''" by (simp add: ev_ts)
  have b: "gui_vtt_ts (Float False 1 0) = Inr ''0:00''" by (simp add: ev_ts)
  have c: "cli_srt_ts (Float False 1 0) = Inr ''00:00:01,000''" by (simp add: ev_ts)
  have d: "cli_vtt_ts (Float False 1 0) = Inr ''00:00:01.000''" by (simp add: ev_ts)
  have "gui_srt_ts (Float False 1 0) = gui_vtt_ts (Float False 1 0)"
    unfolding a b by (rule refl)
  then show ?thesis using a b c d by (intro conjI)
qed

text \<open>
  C2. The claim: for every non-negative float and either style the formatter returns
  \<open>HH:MM:SS<sep>mmm\<close>, hours unbounded, and \<open>format(0, style)\<close> is
  \<open>"00:00:00" + sep + "000"\<close>. The desktop \<^verbatim>\<open>srt_ts\<close> and \<^verbatim>\<open>vtt_ts\<close> return
  \<open>"0:00"\<close> at zero, a one-digit hour at 2.5 seconds, and wrap the hours into days at
  25 hours; the command-line formatter has the claimed shape
  (\<open>format_zero\<close>, \<open>hhmmss_of_ms_shape\<close>, \<open>cli_format_total\<close>).
\<close>

theorem gui_ts_malformed:
  "gui_srt_ts (Float False 0 0) = Inr ''0:00''
   \<and> gui_vtt_ts (Float False 0 0) = Inr ''0:00''
   \<and> gui_srt_ts (Float False 5 (- 1)) = Inr ''0:00:02,500''
   \<and> gui_srt_ts (Float False 90000 0) = Inr ''1 day, 1:00''
   \<and> cli_srt_ts (Float False 0 0) = Inr ''00:00:00,000''
   \<and> cli_srt_ts (Float False 90000 0) = Inr ''25:00:00,000''"
  by (simp add: ev_ts)

text \<open>
  C4. The claim: every negative input is formatted as zero is. The desktop \<^verbatim>\<open>srt_ts\<close>
  has no clamp: minus one second gives \<open>"-1 day, 23:59"\<close>, which is not what it gives
  at zero. The command-line formatter clamps (\<open>cli_negative_clamped\<close>).
\<close>

theorem gui_ts_negative_not_clamped:
  "gui_srt_ts (Float True 1 0) = Inr ''-1 day, 23:59''
   \<and> gui_srt_ts (Float False 0 0) = Inr ''0:00''
   \<and> gui_srt_ts (Float True 1 0) \<noteq> gui_srt_ts (Float False 0 0)
   \<and> cli_srt_ts (Float True 1 0) = cli_srt_ts (Float False 0 0)"
proof -
  have a: "gui_srt_ts (Float True 1 0) = Inr ''-1 day, 23:59''" by (simp add: ev_ts)
  have b: "gui_srt_ts (Float False 0 0) = Inr ''0:00''" by (simp add: ev_ts)
  have c: "cli_srt_ts (Float True 1 0) = Inr ''00:00:00,000''" by (simp add: ev_ts)
  have d: "cli_srt_ts (Float False 0 0) = Inr ''00:00:00,000''" by (simp add: ev_ts)
  have "gui_srt_ts (Float True 1 0) \<noteq> gui_srt_ts (Float False 0 0)"
    unfolding a b by simp
  moreover have "cli_srt_ts (Float True 1 0) = cli_srt_ts (Float False 0 0)"
    unfolding c d by (rule refl)
  ultimately show ?thesis using a b by (intro conjI)
qed

text \<open>
  C8. The claim: both front-ends round to whole milliseconds by one rule and never
  truncate. At 513/1024 seconds (500.9765625 ms) the command line rounds to 501 and the
  desktop front-end cuts to 500; at the double nearest 3661.2005 the command line gives
  \<open>01:01:01,200\<close> (the product is the tie 3661200.5, rounded to even).
\<close>

theorem gui_truncates_where_cli_rounds:
  "cli_srt_ts (Float False 513 (- 10)) = Inr ''00:00:00,501''
   \<and> gui_srt_ts (Float False 513 (- 10)) = Inr ''0:00:00,500''
   \<and> cli_vtt_ts (Float False 513 (- 10)) = Inr ''00:00:00.501''
   \<and> gui_vtt_ts (Float False 513 (- 10)) = Inr ''0:00:00.500''
   \<and> cli_srt_ts (Float False 4025532521369305 (- 40)) = Inr ''01:01:01,200''"
  by (simp add: ev_ts)

section \<open>The writers\<close>

lemma txt_loop_eq:
  "txt_loop segs buf = (buf @ concat (map (\<lambda>seg. strip (seg_text seg) @ ''\<newline>'') segs), None)"
  by (induction segs arbitrary: buf) simp_all

lemma srt_loop_ok:
  assumes "\<forall>seg \<in> set segs. (\<exists>a. ts (seg_start seg) = Inr a) \<and> (\<exists>b. ts (seg_end seg) = Inr b)"
  shows "srt_loop ts i segs buf =
           (buf @ concat (map (\<lambda>(k, seg). show_nat k @ ''\<newline>''
               @ projr (ts (seg_start seg)) @ '' --> '' @ projr (ts (seg_end seg)) @ ''\<newline>''
               @ strip (seg_text seg) @ ''\<newline>\<newline>'') (enumerate i segs)), None)"
  using assms
proof (induction segs arbitrary: i buf)
  case Nil
  then show ?case by simp
next
  case (Cons seg segs)
  from Cons.prems obtain a b where ab: "ts (seg_start seg) = Inr a" "ts (seg_end seg) = Inr b"
    by auto
  have "\<forall>seg \<in> set segs. (\<exists>a. ts (seg_start seg) = Inr a) \<and> (\<exists>b. ts (seg_end seg) = Inr b)"
    using Cons.prems by simp
  then show ?case using ab by (simp add: Cons.IH)
qed

lemma vtt_loop_ok:
  assumes "\<forall>seg \<in> set segs. (\<exists>a. ts (seg_start seg) = Inr a) \<and> (\<exists>b. ts (seg_end seg) = Inr b)"
  shows "vtt_loop ts segs buf =
           (buf @ concat (map (\<lambda>seg. projr (ts (seg_start seg)) @ '' --> ''
               @ projr (ts (seg_end seg)) @ ''\<newline>''
               @ strip (seg_text seg) @ ''\<newline>\<newline>'') segs), None)"
  using assms
proof (induction segs arbitrary: buf)
  case Nil
  then show ?case by simp
next
  case (Cons seg segs)
  from Cons.prems obtain a b where ab: "ts (seg_start seg) = Inr a" "ts (seg_end seg) = Inr b"
    by auto
  have "\<forall>seg \<in> set segs. (\<exists>a. ts (seg_start seg) = Inr a) \<and> (\<exists>b. ts (seg_end seg) = Inr b)"
    using Cons.prems by simp
  then show ?case using ab by (simp add: Cons.IH)
qed

lemma write_vtt_ok:
  assumes "\<forall>seg \<in> set segs. (\<exists>a. ts (seg_start seg) = Inr a) \<and> (\<exists>b. ts (seg_end seg) = Inr b)"
    and "next_fault w = Io_ok"
  shows "write_vtt ts p segs w =
           ((consume w)\<lparr>files := (files w)(p \<mapsto> ''WEBVTT\<newline>\<newline>''
               @ concat (map (\<lambda>seg. projr (ts (seg_start seg)) @ '' --> ''
                   @ projr (ts (seg_end seg)) @ ''\<newline>''
                   @ strip (seg_text seg) @ ''\<newline>\<newline>'') segs))\<rparr>, None)"
  using assms(2) by (simp add: write_vtt_def open_write_def vtt_loop_ok [OF assms(1)])

lemma write_srt_ok:
  assumes "\<forall>seg \<in> set segs. (\<exists>a. ts (seg_start seg) = Inr a) \<and> (\<exists>b. ts (seg_end seg) = Inr b)"
    and "next_fault w = Io_ok"
  shows "write_srt ts p segs w =
           ((consume w)\<lparr>files := (files w)(p \<mapsto>
               concat (map (\<lambda>(k, seg). show_nat k @ ''\<newline>''
                   @ projr (ts (seg_start seg)) @ '' --> '' @ projr (ts (seg_end seg)) @ ''\<newline>''
                   @ strip (seg_text seg) @ ''\<newline>\<newline>'') (enumerate 1 segs)))\<rparr>, None)"
  using assms(2) by (simp add: write_srt_def open_write_def srt_loop_ok [OF assms(1)])

lemma strip_Hello: "strip ''Hello'' = ''Hello''"
  by (simp add: strip_def isspace_def)

lemma strip_world: "strip ''world'' = ''world''"
  by (simp add: strip_def isspace_def)

lemma strip_example: "strip '' Hello world\<newline>'' = ''Hello world''"
  by (simp add: strip_def isspace_def)

lemma last_dropWhile: "dropWhile P xs \<noteq> [] \<Longrightarrow> last (dropWhile P xs) = last xs"
  by (induction xs) (auto split: if_splits)

lemma strip_trimmed:
  assumes "strip s \<noteq> []"
  shows "\<not> isspace (hd (strip s))" and "\<not> isspace (last (strip s))"
proof -
  define t where "t = dropWhile isspace s"
  define u where "u = dropWhile isspace (rev t)"
  have s: "strip s = rev u" by (simp add: strip_def t_def u_def)
  have u: "u \<noteq> []" using assms s by simp
  then have t: "t \<noteq> []" by (auto simp: u_def)
  have "last (strip s) = hd u" using u by (simp add: s last_rev)
  moreover have "\<not> isspace (hd u)" using u unfolding u_def by (rule hd_dropWhile)
  ultimately show "\<not> isspace (last (strip s))" by simp
  have "hd (strip s) = last u" using u by (simp add: s hd_rev)
  also have "\<dots> = last (rev t)" using u unfolding u_def by (rule last_dropWhile)
  also have "\<dots> = hd t" using t by (simp add: last_rev)
  finally have "hd (strip s) = hd t" .
  moreover have "\<not> isspace (hd t)" using t unfolding t_def by (rule hd_dropWhile)
  ultimately show "\<not> isspace (hd (strip s))" by simp
qed

lemma strip_decompose:
  "\<exists>a b. s = a @ strip s @ b \<and> (\<forall>c \<in> set a. isspace c) \<and> (\<forall>c \<in> set b. isspace c)"
proof -
  define t where "t = dropWhile isspace s"
  have s: "s = takeWhile isspace s @ t" by (simp add: t_def)
  have "rev (dropWhile isspace (rev t)) @ rev (takeWhile isspace (rev t))
      = rev (takeWhile isspace (rev t) @ dropWhile isspace (rev t))"
    by (simp only: rev_append)
  also have "\<dots> = rev (rev t)" by (simp only: takeWhile_dropWhile_id)
  also have "\<dots> = t" by simp
  finally have t: "t = strip s @ rev (takeWhile isspace (rev t))"
    by (simp add: strip_def t_def)
  have "s = takeWhile isspace s @ strip s @ rev (takeWhile isspace (rev t))"
    using s t by simp
  moreover have "\<forall>c \<in> set (takeWhile isspace s). isspace c"
    by (auto dest: set_takeWhileD)
  moreover have "\<forall>c \<in> set (rev (takeWhile isspace (rev t))). isspace c"
    by (auto dest: set_takeWhileD)
  ultimately show ?thesis by blast
qed

section \<open>Claims on the subtitle writers\<close>

text \<open>
  C5. The claim: the VTT writer produces the header \<open>WEBVTT\<close> and an empty line, then
  for each segment the line \<open>start --> end\<close> in the period style, the trimmed text and
  an empty line, with no index lines. Both writers have this layout around whatever their
  \<^verbatim>\<open>vtt_ts\<close> returns (\<open>write_vtt_ok\<close>), and the text is trimmed on both sides
  (\<open>strip_decompose\<close>, \<open>strip_trimmed\<close>). For the segments (0, 1, " Hello") and
  (1, 2.5, "world" with a newline) the command line writes the period-style lines
  \<open>00:00:00.000 --> 00:00:01.000\<close> and \<open>00:00:01.000 --> 00:00:02.500\<close>; the desktop
  \<^verbatim>\<open>write_vtt\<close>, with the \<^verbatim>\<open>vtt_ts\<close> nested in it, writes \<open>0:00 --> 0:00\<close> and
  \<open>0:00 --> 0:00:02.500\<close>.
\<close>

theorem gui_write_vtt_example:
  "gui_write_vtt (Path ''/'' [''out'', ''a.vtt''])
        [\<lparr>seg_start = Float False 0 0, seg_end = Float False 1 0, seg_text = '' Hello''\<rparr>,
         \<lparr>seg_start = Float False 1 0, seg_end = Float False 5 (- 1),
           seg_text = ''world\<newline>''\<rparr>]
        \<lparr>files = Map.empty, dirs = {}, faults = []\<rparr>
      = (\<lparr>files = [Path ''/'' [''out'', ''a.vtt''] \<mapsto> ''WEBVTT\<newline>\<newline>0:00 --> 0:00\<newline>Hello\<newline>\<newline>0:00 --> 0:00:02.500\<newline>world\<newline>\<newline>''],
           dirs = {}, faults = []\<rparr>, None)
   \<and> cli_write_vtt ''a.vtt''
        [\<lparr>seg_start = Float False 0 0, seg_end = Float False 1 0, seg_text = '' Hello''\<rparr>,
         \<lparr>seg_start = Float False 1 0, seg_end = Float False 5 (- 1),
           seg_text = ''world\<newline>''\<rparr>]
        \<lparr>files = Map.empty, dirs = {}, faults = []\<rparr>
      = (\<lparr>files = [''a.vtt'' \<mapsto> ''WEBVTT\<newline>\<newline>00:00:00.000 --> 00:00:01.000\<newline>Hello\<newline>\<newline>00:00:01.000 --> 00:00:02.500\<newline>world\<newline>\<newline>''],
           dirs = {}, faults = []\<rparr>, None)"
proof -
  have g0: "gui_vtt_ts (Float False 0 0) = Inr ''0:00''" by (simp add: ev_ts)
  have g1: "gui_vtt_ts (Float False 1 0) = Inr ''0:00''" by (simp add: ev_ts)
  have g2: "gui_vtt_ts (Float False 5 (- 1)) = Inr ''0:00:02.500''" by (simp add: ev_ts)
  have c0: "cli_vtt_ts (Float False 0 0) = Inr ''00:00:00.000''" by (simp add: ev_ts)
  have c1: "cli_vtt_ts (Float False 1 0) = Inr ''00:00:01.000''" by (simp add: ev_ts)
  have c2: "cli_vtt_ts (Float False 5 (- 1)) = Inr ''00:00:02.500''" by (simp add: ev_ts)
  have s1: "strip '' Hello'' = ''Hello''" by (simp add: strip_def isspace_def)
  have s2: "strip ''world\<newline>'' = ''world''" by (simp add: strip_def isspace_def)
  have gui: "vtt_loop gui_vtt_ts
        [\<lparr>seg_start = Float False 0 0, seg_end = Float False 1 0, seg_text = '' Hello''\<rparr>,
         \<lparr>seg_start = Float False 1 0, seg_end = Float False 5 (- 1),
           seg_text = ''world\<newline>''\<rparr>] ''WEBVTT\<newline>\<newline>''
      = (''WEBVTT\<newline>\<newline>0:00 --> 0:00\<newline>Hello\<newline>\<newline>0:00 --> 0:00:02.500\<newline>world\<newline>\<newline>'', None)"
    by (simp add: g0 g1 [unfolded One_nat_def] g2 s1 s2)
  have cli: "vtt_loop cli_vtt_ts
        [\<lparr>seg_start = Float False 0 0, seg_end = Float False 1 0, seg_text = '' Hello''\<rparr>,
         \<lparr>seg_start = Float False 1 0, seg_end = Float False 5 (- 1),
           seg_text = ''world\<newline>''\<rparr>] ''WEBVTT\<newline>\<newline>''
      = (''WEBVTT\<newline>\<newline>00:00:00.000 --> 00:00:01.000\<newline>Hello\<newline>\<newline>00:00:01.000 --> 00:00:02.500\<newline>world\<newline>\<newline>'', None)"
    by (simp add: c0 c1 [unfolded One_nat_def] c2 s1 s2)
  show ?thesis
    unfolding gui_write_vtt_def cli_write_vtt_def write_vtt_def gui cli
    by (simp add: open_write_def next_fault_def consume_def)
qed

text \<open>
  C1. The claim: for the segments (0, 1, "Hello") and (1, 2.5, "world") the SRT writer
  produces the blocks \<open>1 / 00:00:00,000 --> 00:00:01,000 / Hello\<close> and
  \<open>2 / 00:00:01,000 --> 00:00:02,500 / world\<close>. \<^verbatim>\<open>write_srt\<close> of the command line
  does; \<^verbatim>\<open>write_srt\<close> of the desktop front-end writes \<open>0:00 --> 0:00\<close> and
  \<open>0:00 --> 0:00:02,500\<close>, through its \<^verbatim>\<open>srt_ts\<close>. The layout of the blocks is the
  claimed one in both (\<open>write_srt_ok\<close>).
\<close>

theorem gui_write_srt_example:
  "gui_write_srt (Path ''/'' [''out'', ''a.srt''])
        [\<lparr>seg_start = Float False 0 0, seg_end = Float False 1 0, seg_text = ''Hello''\<rparr>,
         \<lparr>seg_start = Float False 1 0, seg_end = Float False 5 (- 1), seg_text = ''world''\<rparr>]
        \<lparr>files = Map.empty, dirs = {}, faults = []\<rparr>
      = (\<lparr>files = [Path ''/'' [''out'', ''a.srt''] \<mapsto> ''1\<newline>0:00 --> 0:00\<newline>Hello\<newline>\<newline>2\<newline>0:00 --> 0:00:02,500\<newline>world\<newline>\<newline>''],
           dirs = {}, faults = []\<rparr>, None)
   \<and> cli_write_srt ''a.srt''
        [\<lparr>seg_start = Float False 0 0, seg_end = Float False 1 0, seg_text = ''Hello''\<rparr>,
         \<lparr>seg_start = Float False 1 0, seg_end = Float False 5 (- 1), seg_text = ''world''\<rparr>]
        \<lparr>files = Map.empty, dirs = {}, faults = []\<rparr>
      = (\<lparr>files = [''a.srt'' \<mapsto> ''1\<newline>00:00:00,000 --> 00:00:01,000\<newline>Hello\<newline>\<newline>2\<newline>00:00:01,000 --> 00:00:02,500\<newline>world\<newline>\<newline>''],
           dirs = {}, faults = []\<rparr>, None)"
proof -
  have g0: "gui_srt_ts (Float False 0 0) = Inr ''0:00''" by (simp add: ev_ts)
  have g1: "gui_srt_ts (Float False 1 0) = Inr ''0:00''" by (simp add: ev_ts)
  have g2: "gui_srt_ts (Float False 5 (- 1)) = Inr ''0:00:02,500''" by (simp add: ev_ts)
  have c0: "cli_srt_ts (Float False 0 0) = Inr ''00:00:00,000''" by (simp add: ev_ts)
  have c1: "cli_srt_ts (Float False 1 0) = Inr ''00:00:01,000''" by (simp add: ev_ts)
  have c2: "cli_srt_ts (Float False 5 (- 1)) = Inr ''00:00:02,500''" by (simp add: ev_ts)
  have n1: "show_nat 1 = ''1''" and n2: "show_nat 2 = ''2''" by (simp_all add: ev_num)
  have n2': "show_nat (Suc (Suc 0)) = ''2''" using n2 by (simp add: numeral_2_eq_2)
  have gui: "srt_loop gui_srt_ts 1
        [\<lparr>seg_start = Float False 0 0, seg_end = Float False 1 0, seg_text = ''Hello''\<rparr>,
         \<lparr>seg_start = Float False 1 0, seg_end = Float False 5 (- 1), seg_text = ''world''\<rparr>] []
      = (''1\<newline>0:00 --> 0:00\<newline>Hello\<newline>\<newline>2\<newline>0:00 --> 0:00:02,500\<newline>world\<newline>\<newline>'', None)"
    by (simp add: g0 g1 [unfolded One_nat_def] g2 n1 [unfolded One_nat_def] n2' strip_Hello strip_world)
  have cli: "srt_loop cli_srt_ts 1
        [\<lparr>seg_start = Float False 0 0, seg_end = Float False 1 0, seg_text = ''Hello''\<rparr>,
         \<lparr>seg_start = Float False 1 0, seg_end = Float False 5 (- 1), seg_text = ''world''\<rparr>] []
      = (''1\<newline>00:00:00,000 --> 00:00:01,000\<newline>Hello\<newline>\<newline>2\<newline>00:00:01,000 --> 00:00:02,500\<newline>world\<newline>\<newline>'', None)"
    by (simp add: c0 c1 [unfolded One_nat_def] c2 n1 [unfolded One_nat_def] n2' strip_Hello strip_world)
  show ?thesis
    unfolding gui_write_srt_def cli_write_srt_def write_srt_def gui cli
    by (simp add: open_write_def next_fault_def consume_def)
qed

section \<open>Paths\<close>

lemma split_on_no_sep: "c \<notin> set s \<Longrightarrow> split_on c s = [s]"
  by (induction s) auto

lemma path_root_no_slash: "CHR ''/'' \<notin> set s \<Longrightarrow> path_root s = []"
  by (cases s) (auto simp: path_root_def)

lemma path_parts_name:
  "CHR ''/'' \<notin> set s \<Longrightarrow> s \<noteq> [] \<Longrightarrow> s \<noteq> ''.'' \<Longrightarrow> path_parts s = [s]"
  by (simp add: path_parts_def split_on_no_sep)

lemma joinpath_name:
  assumes "CHR ''/'' \<notin> set base" and "ext \<in> {''.txt'', ''.srt'', ''.vtt''}"
  shows "joinpath (Path r ps) (base @ ext) = Path r (ps @ [base @ ext])"
proof -
  have ns: "CHR ''/'' \<notin> set (base @ ext)" using assms by auto
  have "length (base @ ext) \<ge> 4" using assms(2) by auto
  then have ne: "base @ ext \<noteq> []" "base @ ext \<noteq> ''.''"
    by (auto dest: arg_cong [where f = length])
  show ?thesis
    using path_root_no_slash [OF ns] path_parts_name [OF ns ne] by simp
qed

lemma joinpath_name_inj:
  assumes "CHR ''/'' \<notin> set base"
    and "ext \<in> {''.txt'', ''.srt'', ''.vtt''}" and "ext' \<in> {''.txt'', ''.srt'', ''.vtt''}"
  shows "joinpath d (base @ ext) = joinpath d' (base @ ext') \<longleftrightarrow> d = d' \<and> ext = ext'"
proof -
  obtain r ps where d: "d = Path r ps" by (cases d)
  obtain r' ps' where d': "d' = Path r' ps'" by (cases d')
  show ?thesis
    unfolding d d' joinpath_name [OF assms(1,2)] joinpath_name [OF assms(1,3)] by auto
qed

lemma DEFAULT_OUT_not_cwd: "DEFAULT_OUT home \<noteq> Path [] []"
proof (cases home)
  case (Path r ps)
  have "path_root ''WhisperLite'' = []" by (simp add: path_root_def)
  moreover have "path_parts ''WhisperLite'' = [''WhisperLite'']"
    by (rule path_parts_name) simp_all
  ultimately show ?thesis using Path by (simp add: DEFAULT_OUT_def)
qed

section \<open>Operations on the file system\<close>

lemma open_write_frame:
  assumes "open_write p body w = (w', r)"
  shows "faults w' = tl (faults w)" and "dirs w' = dirs w"
    and "q \<noteq> p \<Longrightarrow> files w' q = files w q"
  using assms by (auto simp: open_write_def consume_def split: io_outcome.splits)

lemma open_write_done:
  assumes "open_write p body w = (w', None)"
  shows "files w' p = Some (fst body)" and "snd body = None"
  using assms by (auto simp: open_write_def consume_def split: io_outcome.splits)

lemma mkdir_p_frame:
  assumes "mkdir_p p w = (w', r)"
  shows "faults w' = tl (faults w)" and "files w' = files w" and "dirs w \<subseteq> dirs w'"
  using assms by (auto simp: mkdir_p_def consume_def split: io_outcome.splits)

lemma mkdir_p_done:
  assumes "mkdir_p p w = (w', None)"
  shows "set (ancestors p) \<subseteq> dirs w'" and "p \<in> dirs w'"
proof -
  show a: "set (ancestors p) \<subseteq> dirs w'"
    using assms by (auto simp: mkdir_p_def consume_def split: io_outcome.splits)
  obtain r ps where p: "p = Path r ps" by (cases p)
  have "Path r (take (length ps) ps) \<in> set (ancestors (Path r ps))"
    unfolding ancestors.simps set_map by (rule imageI) simp
  then show "p \<in> dirs w'" using a p by auto
qed

lemma mkdir_p_exist_ok:
  assumes "next_fault w = Io_ok" and "set (ancestors p) \<subseteq> dirs w"
  shows "mkdir_p p w = (consume w, None)"
proof -
  have "dirs w \<union> set (ancestors p) = dirs w" using assms(2) by auto
  then show ?thesis using assms(1) by (simp add: mkdir_p_def consume_def)
qed

lemma mkdir_p_creates:
  assumes "next_fault w = Io_ok"
  shows "\<exists>w'. mkdir_p p w = (w', None) \<and> p \<in> dirs w' \<and> set (ancestors p) \<subseteq> dirs w'"
proof -
  have "mkdir_p p w = ((consume w)\<lparr>dirs := dirs w \<union> set (ancestors p)\<rparr>, None)"
    using assms by (simp add: mkdir_p_def)
  then show ?thesis using mkdir_p_done [of p w] by simp
qed

section \<open>Claim on the output directory\<close>

text \<open>
  C6. The claim: an \<^verbatim>\<open>out_dir\<close> that is the empty string or the root is replaced by the
  default directory. \<^verbatim>\<open>run\<close> tests \<^verbatim>\<open>str(out) in ("/", "")\<close>, but \<^verbatim>\<open>str(Path(""))\<close> is
  \<^verbatim>\<open>"."\<close>: the empty string resolves to the current directory, never to the default
  one. The root is replaced, and \<^verbatim>\<open>mkdir\<close> creates the directory with its parents and
  accepts an existing one (\<open>mkdir_p_creates\<close>, \<open>mkdir_p_exist_ok\<close>).
\<close>

theorem resolve_out_empty_is_cwd:
  "path_str (Path_of []) = ''.''
   \<and> resolve_out home [] = Path [] []
   \<and> path_str (resolve_out home []) = ''.''
   \<and> resolve_out home [] \<noteq> DEFAULT_OUT home
   \<and> resolve_out home ''/'' = DEFAULT_OUT home"
proof -
  have e: "Path_of [] = Path [] []" by (simp add: Path_of_def path_root_def path_parts_def)
  have r: "Path_of ''/'' = Path ''/'' []" by (simp add: Path_of_def path_root_def path_parts_def)
  have 1: "resolve_out home [] = Path [] []" by (simp add: resolve_out_def e)
  have 2: "resolve_out home ''/'' = DEFAULT_OUT home" by (simp add: resolve_out_def r)
  show ?thesis using DEFAULT_OUT_not_cwd [of home] by (simp add: 1 2 e)
qed

section \<open>The output part of the command line\<close>

lemma write_txt_frame:
  assumes "write_txt p segs w = (w', r)"
  shows "q \<noteq> p \<Longrightarrow> files w' q = files w q"
  using assms unfolding write_txt_def by (rule open_write_frame(3))

lemma write_txt_done:
  assumes "write_txt p segs w = (w', None)"
  shows "files w' p = Some (fst (txt_loop segs []))"
  using assms unfolding write_txt_def by (rule open_write_done(1))

lemma write_txt_io_ok:
  assumes "next_fault w = Io_ok"
  shows "\<exists>w'. write_txt p segs w = (w', None) \<and> files w' p = Some (fst (txt_loop segs []))"
  using assms by (simp add: write_txt_def open_write_def txt_loop_eq)

lemma opt_srt_frame:
  assumes "(if b then write_srt ts p segs w else (w, None)) = (w', r)"
  shows "q \<noteq> p \<Longrightarrow> files w' q = files w q"
    and "\<not> b \<Longrightarrow> files w' = files w"
  using assms open_write_frame(3) [of p "srt_loop ts 1 segs []" w w' r q]
  by (auto simp: write_srt_def split: if_splits)

lemma opt_srt_done:
  assumes "(if b then write_srt ts p segs w else (w, None)) = (w', None)"
  shows "b \<Longrightarrow> files w' p = Some (fst (srt_loop ts 1 segs []))"
  using assms open_write_done(1) [of p "srt_loop ts 1 segs []" w w']
  by (auto simp: write_srt_def split: if_splits)

lemma opt_vtt_frame:
  assumes "(if b then write_vtt ts p segs w else (w, None)) = (w', r)"
  shows "q \<noteq> p \<Longrightarrow> files w' q = files w q"
    and "\<not> b \<Longrightarrow> files w' = files w"
  using assms open_write_frame(3) [of p "vtt_loop ts segs ''WEBVTT\<newline>\<newline>''" w w' r q]
  by (auto simp: write_vtt_def split: if_splits)

lemma opt_vtt_done:
  assumes "(if b then write_vtt ts p segs w else (w, None)) = (w', None)"
  shows "b \<Longrightarrow> files w' p = Some (fst (vtt_loop ts segs ''WEBVTT\<newline>\<newline>''))"
  using assms open_write_done(1) [of p "vtt_loop ts segs ''WEBVTT\<newline>\<newline>''" w w']
  by (auto simp: write_vtt_def split: if_splits)

lemma cli_main_outputs_steps:
  assumes "cli_main_outputs base srt vtt segs w = (w', Inr wrote)"
  shows "\<exists>w1 w2.
           write_txt (base @ ''.txt'') segs w = (w1, None)
         \<and> (if srt then write_srt cli_srt_ts (base @ ''.srt'') segs w1 else (w1, None)) = (w2, None)
         \<and> (if vtt then write_vtt cli_vtt_ts (base @ ''.vtt'') segs w2 else (w2, None)) = (w', None)
         \<and> wrote = [base @ ''.txt''] @ (if srt then [base @ ''.srt''] else [])
                      @ (if vtt then [base @ ''.vtt''] else [])"
  using assms unfolding cli_main_outputs_def Let_def cli_write_srt_def cli_write_vtt_def
  by (auto split: prod.splits option.splits)

lemma cli_main_outputs_ok:
  assumes "cli_main_outputs base srt vtt segs w = (w', Inr wrote)"
  shows "wrote = [base @ ''.txt''] @ (if srt then [base @ ''.srt''] else [])
                      @ (if vtt then [base @ ''.vtt''] else [])"
    and "files w' (base @ ''.txt'') = Some (fst (txt_loop segs []))"
    and "files w' (base @ ''.srt'') =
           (if srt then Some (fst (srt_loop cli_srt_ts 1 segs [])) else files w (base @ ''.srt''))"
    and "files w' (base @ ''.vtt'') =
           (if vtt then Some (fst (vtt_loop cli_vtt_ts segs ''WEBVTT\<newline>\<newline>''))
            else files w (base @ ''.vtt''))"
proof -
  obtain w1 w2 where
    1: "write_txt (base @ ''.txt'') segs w = (w1, None)" and
    2: "(if srt then write_srt cli_srt_ts (base @ ''.srt'') segs w1 else (w1, None)) = (w2, None)" and
    3: "(if vtt then write_vtt cli_vtt_ts (base @ ''.vtt'') segs w2 else (w2, None)) = (w', None)" and
    4: "wrote = [base @ ''.txt''] @ (if srt then [base @ ''.srt''] else [])
                      @ (if vtt then [base @ ''.vtt''] else [])"
    using cli_main_outputs_steps [OF assms] by blast
  show "wrote = [base @ ''.txt''] @ (if srt then [base @ ''.srt''] else [])
                      @ (if vtt then [base @ ''.vtt''] else [])" by (rule 4)
  have t1: "files w1 (base @ ''.txt'') = Some (fst (txt_loop segs []))"
    by (rule write_txt_done [OF 1])
  have "files w2 (base @ ''.txt'') = files w1 (base @ ''.txt'')"
    by (rule opt_srt_frame(1) [OF 2]) simp
  moreover have "files w' (base @ ''.txt'') = files w2 (base @ ''.txt'')"
    by (rule opt_vtt_frame(1) [OF 3]) simp
  ultimately show "files w' (base @ ''.txt'') = Some (fst (txt_loop segs []))"
    using t1 by simp
  have s0: "files w1 (base @ ''.srt'') = files w (base @ ''.srt'')"
    by (rule write_txt_frame [OF 1]) simp
  have s3: "files w' (base @ ''.srt'') = files w2 (base @ ''.srt'')"
    by (rule opt_vtt_frame(1) [OF 3]) simp
  show "files w' (base @ ''.srt'') =
           (if srt then Some (fst (srt_loop cli_srt_ts 1 segs [])) else files w (base @ ''.srt''))"
  proof (cases srt)
    case True
    then show ?thesis using opt_srt_done [OF 2] s3 by simp
  next
    case False
    then show ?thesis using opt_srt_frame(2) [OF 2] s0 s3 by simp
  qed
  have v0: "files w1 (base @ ''.vtt'') = files w (base @ ''.vtt'')"
    by (rule write_txt_frame [OF 1]) simp
  have v1: "files w2 (base @ ''.vtt'') = files w1 (base @ ''.vtt'')"
    by (rule opt_srt_frame(1) [OF 2]) simp
  show "files w' (base @ ''.vtt'') =
           (if vtt then Some (fst (vtt_loop cli_vtt_ts segs ''WEBVTT\<newline>\<newline>''))
            else files w (base @ ''.vtt''))"
  proof (cases vtt)
    case True
    then show ?thesis using opt_vtt_done [OF 3] by simp
  next
    case False
    then show ?thesis using opt_vtt_frame(2) [OF 3] v0 v1 by simp
  qed
qed

lemma cli_txt_unconditional:
  assumes "next_fault w = Io_ok"
  shows "files (fst (cli_main_outputs base srt vtt segs w)) (base @ ''.txt'')
           = Some (fst (txt_loop segs []))"
proof -
  obtain w1 where 1: "write_txt (base @ ''.txt'') segs w = (w1, None)"
    and t1: "files w1 (base @ ''.txt'') = Some (fst (txt_loop segs []))"
    using write_txt_io_ok [OF assms] by blast
  obtain w2 r2 where
    2: "(if srt then write_srt cli_srt_ts (base @ ''.srt'') segs w1 else (w1, None)) = (w2, r2)"
    by (meson surj_pair)
  obtain w3 r3 where
    3: "(if vtt then write_vtt cli_vtt_ts (base @ ''.vtt'') segs w2 else (w2, None)) = (w3, r3)"
    by (meson surj_pair)
  have t2: "files w2 (base @ ''.txt'') = files w1 (base @ ''.txt'')"
    by (rule opt_srt_frame(1) [OF 2]) simp
  have t3: "files w3 (base @ ''.txt'') = files w2 (base @ ''.txt'')"
    by (rule opt_vtt_frame(1) [OF 3]) simp
  have "fst (cli_main_outputs base srt vtt segs w) = w2
      \<or> fst (cli_main_outputs base srt vtt segs w) = w3"
    using 1 2 3 unfolding cli_main_outputs_def Let_def cli_write_srt_def cli_write_vtt_def
    by (auto split: option.splits)
  then show ?thesis using t1 t2 t3 by auto
qed

section \<open>The output part of the desktop front-end\<close>

lemma gui_paths_distinct:
  assumes "CHR ''/'' \<notin> set base"
  shows "joinpath d (base @ ''.srt'') \<noteq> joinpath d (base @ ''.txt'')"
    and "joinpath d (base @ ''.vtt'') \<noteq> joinpath d (base @ ''.txt'')"
    and "joinpath d (base @ ''.txt'') \<noteq> joinpath d (base @ ''.srt'')"
    and "joinpath d (base @ ''.vtt'') \<noteq> joinpath d (base @ ''.srt'')"
    and "joinpath d (base @ ''.txt'') \<noteq> joinpath d (base @ ''.vtt'')"
    and "joinpath d (base @ ''.srt'') \<noteq> joinpath d (base @ ''.vtt'')"
  by (simp_all add: joinpath_name_inj [OF assms])

lemma gui_try_writes_steps:
  assumes "gui_try_writes out base srt vtt segs w = (w', Inr msg)"
  shows "\<exists>w1 w2.
           write_txt (joinpath out (base @ ''.txt'')) segs w = (w1, None)
         \<and> (if srt then write_srt gui_srt_ts (joinpath out (base @ ''.srt'')) segs w1
             else (w1, None)) = (w2, None)
         \<and> (if vtt then write_vtt gui_vtt_ts (joinpath out (base @ ''.vtt'')) segs w2
             else (w2, None)) = (w', None)
         \<and> msg = ''Wrote: '' @ join_comma
              ([path_str (joinpath out (base @ ''.txt''))]
               @ (if srt then [path_str (joinpath out (base @ ''.srt''))] else [])
               @ (if vtt then [path_str (joinpath out (base @ ''.vtt''))] else []))"
  using assms unfolding gui_try_writes_def Let_def gui_write_srt_def gui_write_vtt_def
  by (auto split: prod.splits option.splits)

lemma gui_fallback_steps:
  assumes "gui_fallback home base srt vtt segs w = (w', Inr msg)"
  shows "\<exists>w0 w1 w2.
           mkdir_p (DEFAULT_OUT home) w = (w0, None)
         \<and> write_txt (joinpath (DEFAULT_OUT home) (base @ ''.txt'')) segs w0 = (w1, None)
         \<and> (if srt then write_srt gui_srt_ts (joinpath (DEFAULT_OUT home) (base @ ''.srt'')) segs w1
             else (w1, None)) = (w2, None)
         \<and> (if vtt then write_vtt gui_vtt_ts (joinpath (DEFAULT_OUT home) (base @ ''.vtt'')) segs w2
             else (w2, None)) = (w', None)
         \<and> msg = ''Wrote (fallback): '' @ join_comma
              ([path_str (joinpath (DEFAULT_OUT home) (base @ ''.txt''))]
               @ (if srt then [path_str (joinpath (DEFAULT_OUT home) (base @ ''.srt''))] else [])
               @ (if vtt then [path_str (joinpath (DEFAULT_OUT home) (base @ ''.vtt''))] else []))"
  using assms unfolding gui_fallback_def Let_def gui_write_srt_def gui_write_vtt_def
  by (auto split: prod.splits option.splits)

lemma three_writes_files:
  assumes ns: "CHR ''/'' \<notin> set base"
    and 1: "write_txt (joinpath d (base @ ''.txt'')) segs w0 = (w1, None)"
    and 2: "(if srt then write_srt gui_srt_ts (joinpath d (base @ ''.srt'')) segs w1
             else (w1, None)) = (w2, None)"
    and 3: "(if vtt then write_vtt gui_vtt_ts (joinpath d (base @ ''.vtt'')) segs w2
             else (w2, None)) = (w3, None)"
  shows "files w3 (joinpath d (base @ ''.txt'')) = Some (fst (txt_loop segs []))"
    and "files w3 (joinpath d (base @ ''.srt'')) =
           (if srt then Some (fst (srt_loop gui_srt_ts 1 segs []))
            else files w0 (joinpath d (base @ ''.srt'')))"
    and "files w3 (joinpath d (base @ ''.vtt'')) =
           (if vtt then Some (fst (vtt_loop gui_vtt_ts segs ''WEBVTT\<newline>\<newline>''))
            else files w0 (joinpath d (base @ ''.vtt'')))"
proof -
  note D = gui_paths_distinct [OF ns, of d]
  have t1: "files w1 (joinpath d (base @ ''.txt'')) = Some (fst (txt_loop segs []))"
    by (rule write_txt_done [OF 1])
  have "files w2 (joinpath d (base @ ''.txt'')) = files w1 (joinpath d (base @ ''.txt''))"
    by (rule opt_srt_frame(1) [OF 2]) (rule D(3))
  moreover have "files w3 (joinpath d (base @ ''.txt'')) = files w2 (joinpath d (base @ ''.txt''))"
    by (rule opt_vtt_frame(1) [OF 3]) (rule D(5))
  ultimately show "files w3 (joinpath d (base @ ''.txt'')) = Some (fst (txt_loop segs []))"
    using t1 by simp
  have s0: "files w1 (joinpath d (base @ ''.srt'')) = files w0 (joinpath d (base @ ''.srt''))"
    by (rule write_txt_frame [OF 1]) (rule D(1))
  have s3: "files w3 (joinpath d (base @ ''.srt'')) = files w2 (joinpath d (base @ ''.srt''))"
    by (rule opt_vtt_frame(1) [OF 3]) (rule D(6))
  show "files w3 (joinpath d (base @ ''.srt'')) =
           (if srt then Some (fst (srt_loop gui_srt_ts 1 segs []))
            else files w0 (joinpath d (base @ ''.srt'')))"
  proof (cases srt)
    case True
    then show ?thesis using opt_srt_done [OF 2] s3 by simp
  next
    case False
    then show ?thesis using opt_srt_frame(2) [OF 2] s0 s3 by simp
  qed
  have v0: "files w1 (joinpath d (base @ ''.vtt'')) = files w0 (joinpath d (base @ ''.vtt''))"
    by (rule write_txt_frame [OF 1]) (rule D(2))
  have v1: "files w2 (joinpath d (base @ ''.vtt'')) = files w1 (joinpath d (base @ ''.vtt''))"
    by (rule opt_srt_frame(1) [OF 2]) (rule D(4))
  show "files w3 (joinpath d (base @ ''.vtt'')) =
           (if vtt then Some (fst (vtt_loop gui_vtt_ts segs ''WEBVTT\<newline>\<newline>''))
            else files w0 (joinpath d (base @ ''.vtt'')))"
  proof (cases vtt)
    case True
    then show ?thesis using opt_vtt_done [OF 3] by simp
  next
    case False
    then show ?thesis using opt_vtt_frame(2) [OF 3] v0 v1 by simp
  qed
qed

section \<open>Claims on the files written\<close>

text \<open>
  C10. In both front-ends and for every setting of the two flags: a run that reports
  its files lists the \<^verbatim>\<open>.txt\<close> path first, then the \<^verbatim>\<open>.srt\<close> path if its flag is set,
  then the \<^verbatim>\<open>.vtt\<close> path if its flag is set; the listed files hold the whole text of
  their format, and a format whose flag is off leaves its file as it was. The
  \<^verbatim>\<open>.txt\<close> file is the first thing written whatever the flags: if the file system takes
  that write, the file holds the whole text at the end of the command-line run, even
  when a later write fails. The desktop front-end reports through the text of its
  \<^verbatim>\<open>done\<close> signal, after a first attempt and after the fallback alike.
\<close>

theorem txt_written_first_and_listed_first:
  "(\<forall>w' wrote. cli_main_outputs base srt vtt segs w = (w', Inr wrote) \<longrightarrow>
       wrote = [base @ ''.txt''] @ (if srt then [base @ ''.srt''] else [])
                 @ (if vtt then [base @ ''.vtt''] else [])
     \<and> files w' (base @ ''.txt'') = Some (fst (txt_loop segs []))
     \<and> files w' (base @ ''.srt'') =
         (if srt then Some (fst (srt_loop cli_srt_ts 1 segs [])) else files w (base @ ''.srt''))
     \<and> files w' (base @ ''.vtt'') =
         (if vtt then Some (fst (vtt_loop cli_vtt_ts segs ''WEBVTT\<newline>\<newline>''))
          else files w (base @ ''.vtt'')))
   \<and> (next_fault w = Io_ok \<longrightarrow>
       files (fst (cli_main_outputs base srt vtt segs w)) (base @ ''.txt'')
         = Some (fst (txt_loop segs [])))
   \<and> (CHR ''/'' \<notin> set base \<longrightarrow>
       (\<forall>v' msg. gui_try_writes out base srt vtt segs v = (v', Inr msg) \<longrightarrow>
          msg = ''Wrote: '' @ join_comma
              ([path_str (joinpath out (base @ ''.txt''))]
               @ (if srt then [path_str (joinpath out (base @ ''.srt''))] else [])
               @ (if vtt then [path_str (joinpath out (base @ ''.vtt''))] else []))
        \<and> files v' (joinpath out (base @ ''.txt'')) = Some (fst (txt_loop segs []))
        \<and> files v' (joinpath out (base @ ''.srt'')) =
            (if srt then Some (fst (srt_loop gui_srt_ts 1 segs []))
             else files v (joinpath out (base @ ''.srt'')))
        \<and> files v' (joinpath out (base @ ''.vtt'')) =
            (if vtt then Some (fst (vtt_loop gui_vtt_ts segs ''WEBVTT\<newline>\<newline>''))
             else files v (joinpath out (base @ ''.vtt'')))))
   \<and> (CHR ''/'' \<notin> set base \<longrightarrow>
       (\<forall>v' msg. gui_fallback home base srt vtt segs v = (v', Inr msg) \<longrightarrow>
          msg = ''Wrote (fallback): '' @ join_comma
              ([path_str (joinpath (DEFAULT_OUT home) (base @ ''.txt''))]
               @ (if srt then [path_str (joinpath (DEFAULT_OUT home) (base @ ''.srt''))] else [])
               @ (if vtt then [path_str (joinpath (DEFAULT_OUT home) (base @ ''.vtt''))] else []))
        \<and> files v' (joinpath (DEFAULT_OUT home) (base @ ''.txt'')) = Some (fst (txt_loop segs []))
        \<and> files v' (joinpath (DEFAULT_OUT home) (base @ ''.srt'')) =
            (if srt then Some (fst (srt_loop gui_srt_ts 1 segs []))
             else files v (joinpath (DEFAULT_OUT home) (base @ ''.srt'')))
        \<and> files v' (joinpath (DEFAULT_OUT home) (base @ ''.vtt'')) =
            (if vtt then Some (fst (vtt_loop gui_vtt_ts segs ''WEBVTT\<newline>\<newline>''))
             else files v (joinpath (DEFAULT_OUT home) (base @ ''.vtt'')))))"
proof (intro conjI allI impI)
  fix w' wrote
  assume a: "cli_main_outputs base srt vtt segs w = (w', Inr wrote)"
  show "wrote = [base @ ''.txt''] @ (if srt then [base @ ''.srt''] else [])
                 @ (if vtt then [base @ ''.vtt''] else [])"
    by (rule cli_main_outputs_ok(1) [OF a])
  show "files w' (base @ ''.txt'') = Some (fst (txt_loop segs []))"
    by (rule cli_main_outputs_ok(2) [OF a])
  show "files w' (base @ ''.srt'') =
         (if srt then Some (fst (srt_loop cli_srt_ts 1 segs [])) else files w (base @ ''.srt''))"
    by (rule cli_main_outputs_ok(3) [OF a])
  show "files w' (base @ ''.vtt'') =
         (if vtt then Some (fst (vtt_loop cli_vtt_ts segs ''WEBVTT\<newline>\<newline>''))
          else files w (base @ ''.vtt''))"
    by (rule cli_main_outputs_ok(4) [OF a])
next
  assume "next_fault w = Io_ok"
  then show "files (fst (cli_main_outputs base srt vtt segs w)) (base @ ''.txt'')
         = Some (fst (txt_loop segs []))"
    by (rule cli_txt_unconditional)
next
  fix v' msg
  assume ns: "CHR ''/'' \<notin> set base"
    and a: "gui_try_writes out base srt vtt segs v = (v', Inr msg)"
  obtain w1 w2 where
    1: "write_txt (joinpath out (base @ ''.txt'')) segs v = (w1, None)" and
    2: "(if srt then write_srt gui_srt_ts (joinpath out (base @ ''.srt'')) segs w1
         else (w1, None)) = (w2, None)" and
    3: "(if vtt then write_vtt gui_vtt_ts (joinpath out (base @ ''.vtt'')) segs w2
         else (w2, None)) = (v', None)" and
    4: "msg = ''Wrote: '' @ join_comma
              ([path_str (joinpath out (base @ ''.txt''))]
               @ (if srt then [path_str (joinpath out (base @ ''.srt''))] else [])
               @ (if vtt then [path_str (joinpath out (base @ ''.vtt''))] else []))"
    using gui_try_writes_steps [OF a] by blast
  show "msg = ''Wrote: '' @ join_comma
              ([path_str (joinpath out (base @ ''.txt''))]
               @ (if srt then [path_str (joinpath out (base @ ''.srt''))] else [])
               @ (if vtt then [path_str (joinpath out (base @ ''.vtt''))] else []))"
    by (rule 4)
  show "files v' (joinpath out (base @ ''.txt'')) = Some (fst (txt_loop segs []))"
    by (rule three_writes_files(1) [OF ns 1 2 3])
  show "files v' (joinpath out (base @ ''.srt'')) =
            (if srt then Some (fst (srt_loop gui_srt_ts 1 segs []))
             else files v (joinpath out (base @ ''.srt'')))"
    by (rule three_writes_files(2) [OF ns 1 2 3])
  show "files v' (joinpath out (base @ ''.vtt'')) =
            (if vtt then Some (fst (vtt_loop gui_vtt_ts segs ''WEBVTT\<newline>\<newline>''))
             else files v (joinpath out (base @ ''.vtt'')))"
    by (rule three_writes_files(3) [OF ns 1 2 3])
next
  fix v' msg
  assume ns: "CHR ''/'' \<notin> set base"
    and a: "gui_fallback home base srt vtt segs v = (v', Inr msg)"
  obtain w0 w1 w2 where
    0: "mkdir_p (DEFAULT_OUT home) v = (w0, None)" and
    1: "write_txt (joinpath (DEFAULT_OUT home) (base @ ''.txt'')) segs w0 = (w1, None)" and
    2: "(if srt then write_srt gui_srt_ts (joinpath (DEFAULT_OUT home) (base @ ''.srt'')) segs w1
         else (w1, None)) = (w2, None)" and
    3: "(if vtt then write_vtt gui_vtt_ts (joinpath (DEFAULT_OUT home) (base @ ''.vtt'')) segs w2
         else (w2, None)) = (v', None)" and
    4: "msg = ''Wrote (fallback): '' @ join_comma
              ([path_str (joinpath (DEFAULT_OUT home) (base @ ''.txt''))]
               @ (if srt then [path_str (joinpath (DEFAULT_OUT home) (base @ ''.srt''))] else [])
               @ (if vtt then [path_str (joinpath (DEFAULT_OUT home) (base @ ''.vtt''))] else []))"
    using gui_fallback_steps [OF a] by blast
  have f0: "files w0 = files v" by (rule mkdir_p_frame(2) [OF 0])
  show "msg = ''Wrote (fallback): '' @ join_comma
              ([path_str (joinpath (DEFAULT_OUT home) (base @ ''.txt''))]
               @ (if srt then [path_str (joinpath (DEFAULT_OUT home) (base @ ''.srt''))] else [])
               @ (if vtt then [path_str (joinpath (DEFAULT_OUT home) (base @ ''.vtt''))] else []))"
    by (rule 4)
  show "files v' (joinpath (DEFAULT_OUT home) (base @ ''.txt'')) = Some (fst (txt_loop segs []))"
    by (rule three_writes_files(1) [OF ns 1 2 3])
  show "files v' (joinpath (DEFAULT_OUT home) (base @ ''.srt'')) =
            (if srt then Some (fst (srt_loop gui_srt_ts 1 segs []))
             else files v (joinpath (DEFAULT_OUT home) (base @ ''.srt'')))"
    using three_writes_files(2) [OF ns 1 2 3] by (simp add: f0)
  show "files v' (joinpath (DEFAULT_OUT home) (base @ ''.vtt'')) =
            (if vtt then Some (fst (vtt_loop gui_vtt_ts segs ''WEBVTT\<newline>\<newline>''))
             else files v (joinpath (DEFAULT_OUT home) (base @ ''.vtt'')))"
    using three_writes_files(3) [OF ns 1 2 3] by (simp add: f0)
qed

lemmas ev_io = write_txt_def write_srt_def write_vtt_def cli_write_srt_def cli_write_vtt_def
  gui_write_srt_def gui_write_vtt_def open_write_def next_fault_def consume_def mkdir_p_def
  Path_of_def path_root_def path_parts_def DEFAULT_OUT_def resolve_out_def Let_def
  strip_def isspace_def

lemma ts_examples:
  "cli_srt_ts (Float False 0 0) = Inr ''00:00:00,000''"
  "cli_srt_ts (Float False (Suc 0) 0) = Inr ''00:00:01,000''"
  "cli_vtt_ts (Float False 0 0) = Inr ''00:00:00.000''"
  "cli_vtt_ts (Float False (Suc 0) 0) = Inr ''00:00:01.000''"
  "gui_srt_ts (Float False 0 0) = Inr ''0:00''"
  "gui_srt_ts (Float False (Suc 0) 0) = Inr ''0:00''"
  "gui_vtt_ts (Float False 0 0) = Inr ''0:00''"
  "gui_vtt_ts (Float False (Suc 0) 0) = Inr ''0:00''"
  "show_nat (Suc 0) = ''1''"
  by (simp_all add: ev_ts)

theorem txt_written_first_and_listed_first_witness:
  "snd (cli_main_outputs ''a'' True False
          [\<lparr>seg_start = Float False 0 0, seg_end = Float False 1 0, seg_text = ''Hello''\<rparr>]
          \<lparr>files = Map.empty, dirs = {}, faults = []\<rparr>) = Inr [''a.txt'', ''a.srt'']
   \<and> files (fst (cli_main_outputs ''a'' True False
          [\<lparr>seg_start = Float False 0 0, seg_end = Float False 1 0, seg_text = ''Hello''\<rparr>]
          \<lparr>files = Map.empty, dirs = {}, faults = []\<rparr>)) ''a.txt'' = Some ''Hello\<newline>''
   \<and> files (fst (cli_main_outputs ''a'' True False
          [\<lparr>seg_start = Float False 0 0, seg_end = Float False 1 0, seg_text = ''Hello''\<rparr>]
          \<lparr>files = Map.empty, dirs = {}, faults = []\<rparr>)) ''a.vtt'' = None
   \<and> snd (gui_try_writes (Path ''/'' [''out'']) ''a'' True False
          [\<lparr>seg_start = Float False 0 0, seg_end = Float False 1 0, seg_text = ''Hello''\<rparr>]
          \<lparr>files = Map.empty, dirs = {}, faults = []\<rparr>) = Inr ''Wrote: /out/a.txt, /out/a.srt''
   \<and> files (fst (gui_try_writes (Path ''/'' [''out'']) ''a'' True False
          [\<lparr>seg_start = Float False 0 0, seg_end = Float False 1 0, seg_text = ''Hello''\<rparr>]
          \<lparr>files = Map.empty, dirs = {}, faults = []\<rparr>)) (Path ''/'' [''out'', ''a.txt''])
       = Some ''Hello\<newline>''
   \<and> snd (gui_fallback (Path ''/'' [''home'', ''u'']) ''a'' True False
          [\<lparr>seg_start = Float False 0 0, seg_end = Float False 1 0, seg_text = ''Hello''\<rparr>]
          \<lparr>files = Map.empty, dirs = {}, faults = []\<rparr>)
       = Inr ''Wrote (fallback): /home/u/WhisperLite/a.txt, /home/u/WhisperLite/a.srt''
   \<and> files (fst (gui_fallback (Path ''/'' [''home'', ''u'']) ''a'' True False
          [\<lparr>seg_start = Float False 0 0, seg_end = Float False 1 0, seg_text = ''Hello''\<rparr>]
          \<lparr>files = Map.empty, dirs = {}, faults = []\<rparr>))
         (Path ''/'' [''home'', ''u'', ''WhisperLite'', ''a.txt''])
       = Some ''Hello\<newline>''"
proof -
  define segs where "segs = [\<lparr>seg_start = Float False 0 0, seg_end = Float False 1 0, seg_text = ''Hello''\<rparr>]"
  define w0 :: "string world" where "w0 = \<lparr>files = Map.empty, dirs = {}, faults = []\<rparr>"
  define v0 :: "path world" where "v0 = \<lparr>files = Map.empty, dirs = {}, faults = []\<rparr>"
  define home where "home = Path ''/'' [''home'', ''u'']"
  define out where "out = Path ''/'' [''out'']"
  have ns: "CHR ''/'' \<notin> set ''a''" by simp
  have nf: "next_fault w0 = Io_ok" by (simp add: w0_def next_fault_def)
  have c: "snd (cli_main_outputs ''a'' True False segs w0) = Inr [''a.txt'', ''a.srt'']"
    by (simp add: segs_def w0_def cli_main_outputs_def ev_io ts_examples)
  have g: "snd (gui_try_writes out ''a'' True False segs v0) = Inr ''Wrote: /out/a.txt, /out/a.srt''"
    by (simp add: segs_def v0_def out_def gui_try_writes_def ev_io ts_examples)
  have f: "snd (gui_fallback home ''a'' True False segs v0)
       = Inr ''Wrote (fallback): /home/u/WhisperLite/a.txt, /home/u/WhisperLite/a.srt''"
    by (simp add: segs_def v0_def home_def gui_fallback_def ev_io ts_examples)
  have tx: "fst (txt_loop segs []) = ''Hello\<newline>''"
    by (simp add: segs_def strip_Hello)
  have p1: "joinpath out (''a'' @ ''.txt'') = Path ''/'' [''out'', ''a.txt'']"
    by (simp add: out_def path_root_def path_parts_def)
  have p2: "joinpath (DEFAULT_OUT home) (''a'' @ ''.txt'') = Path ''/'' [''home'', ''u'', ''WhisperLite'', ''a.txt'']"
    by (simp add: home_def DEFAULT_OUT_def path_root_def path_parts_def)
  note T = txt_written_first_and_listed_first
    [where base = "''a''" and srt = True and vtt = False and segs = segs and w = w0
       and out = out and v = v0 and home = home]
  have c': "cli_main_outputs ''a'' True False segs w0
      = (fst (cli_main_outputs ''a'' True False segs w0), Inr [''a.txt'', ''a.srt''])"
    using c by (simp add: prod_eq_iff)
  have g': "gui_try_writes out ''a'' True False segs v0
      = (fst (gui_try_writes out ''a'' True False segs v0), Inr ''Wrote: /out/a.txt, /out/a.srt'')"
    using g by (simp add: prod_eq_iff)
  have f': "gui_fallback home ''a'' True False segs v0
      = (fst (gui_fallback home ''a'' True False segs v0),
         Inr ''Wrote (fallback): /home/u/WhisperLite/a.txt, /home/u/WhisperLite/a.srt'')"
    using f by (simp add: prod_eq_iff)
  note T1 = T [THEN conjunct1, rule_format, OF c']
  note T2 = T [THEN conjunct2, THEN conjunct1, rule_format, OF nf]
  note T3 = T [THEN conjunct2, THEN conjunct2, THEN conjunct1, rule_format, OF ns g']
  note T4 = T [THEN conjunct2, THEN conjunct2, THEN conjunct2, rule_format, OF ns f']
  have r1: "files (fst (cli_main_outputs ''a'' True False segs w0)) ''a.txt'' = Some ''Hello\<newline>''"
    using T2 by (simp add: tx)
  have r2: "files (fst (cli_main_outputs ''a'' True False segs w0)) ''a.vtt'' = None"
    using T1 [THEN conjunct2, THEN conjunct2, THEN conjunct2] by (simp add: w0_def)
  have r3: "files (fst (gui_try_writes out ''a'' True False segs v0)) (Path ''/'' [''out'', ''a.txt''])
      = Some ''Hello\<newline>''"
    using T3 [THEN conjunct2, THEN conjunct1] unfolding p1 by (simp add: tx)
  have r4: "files (fst (gui_fallback home ''a'' True False segs v0))
      (Path ''/'' [''home'', ''u'', ''WhisperLite'', ''a.txt'']) = Some ''Hello\<newline>''"
    using T4 [THEN conjunct2, THEN conjunct1] unfolding p2 by (simp add: tx)
  show ?thesis
    using c r1 r2 g r3 f r4 unfolding segs_def w0_def v0_def home_def out_def
    by (intro conjI)
qed

section \<open>The fallback of the desktop front-end\<close>

lemma write_txt_env:
  assumes "write_txt p segs w = (w', r)"
  shows "dirs w' = dirs w" and "length (faults w) \<le> length (faults w') + 1"
  using assms open_write_frame(1,2) [of p "txt_loop segs []" w w' r]
  by (auto simp: write_txt_def)

lemma opt_srt_env:
  assumes "(if b then write_srt ts p segs w else (w, None)) = (w', r)"
  shows "dirs w' = dirs w" and "length (faults w) \<le> length (faults w') + 1"
  using assms open_write_frame(1,2) [of p "srt_loop ts 1 segs []" w w' r]
  by (auto simp: write_srt_def split: if_splits)

lemma opt_vtt_env:
  assumes "(if b then write_vtt ts p segs w else (w, None)) = (w', r)"
  shows "dirs w' = dirs w" and "length (faults w) \<le> length (faults w') + 1"
  using assms open_write_frame(1,2) [of p "vtt_loop ts segs ''WEBVTT\<newline>\<newline>''" w w' r]
  by (auto simp: write_vtt_def split: if_splits)

lemma mkdir_p_env:
  assumes "mkdir_p p w = (w', r)"
  shows "length (faults w) \<le> length (faults w') + 1"
  using mkdir_p_frame(1) [OF assms] by simp

lemma gui_try_writes_faults:
  assumes "gui_try_writes out base srt vtt segs w = (w', r)"
  shows "length (faults w) \<le> length (faults w') + 3"
proof -
  obtain w1 r1 where 1: "write_txt (joinpath out (base @ ''.txt'')) segs w = (w1, r1)"
    by (meson surj_pair)
  obtain w2 r2 where
    2: "(if srt then write_srt gui_srt_ts (joinpath out (base @ ''.srt'')) segs w1
         else (w1, None)) = (w2, r2)"
    by (meson surj_pair)
  obtain w3 r3 where
    3: "(if vtt then write_vtt gui_vtt_ts (joinpath out (base @ ''.vtt'')) segs w2
         else (w2, None)) = (w3, r3)"
    by (meson surj_pair)
  note n = write_txt_env(2) [OF 1] opt_srt_env(2) [OF 2] opt_vtt_env(2) [OF 3]
  have "w' = w1 \<or> w' = w2 \<or> w' = w3"
    using assms 1 2 3 unfolding gui_try_writes_def Let_def gui_write_srt_def gui_write_vtt_def
    by (auto split: option.splits)
  then show ?thesis using n by auto
qed

lemma gui_fallback_faults:
  assumes "gui_fallback home base srt vtt segs w = (w', r)"
  shows "length (faults w) \<le> length (faults w') + 4"
proof -
  obtain w0 r0 where 0: "mkdir_p (DEFAULT_OUT home) w = (w0, r0)"
    by (meson surj_pair)
  obtain w1 r1 where 1: "write_txt (joinpath (DEFAULT_OUT home) (base @ ''.txt'')) segs w0 = (w1, r1)"
    by (meson surj_pair)
  obtain w2 r2 where
    2: "(if srt then write_srt gui_srt_ts (joinpath (DEFAULT_OUT home) (base @ ''.srt'')) segs w1
         else (w1, None)) = (w2, r2)"
    by (meson surj_pair)
  obtain w3 r3 where
    3: "(if vtt then write_vtt gui_vtt_ts (joinpath (DEFAULT_OUT home) (base @ ''.vtt'')) segs w2
         else (w2, None)) = (w3, r3)"
    by (meson surj_pair)
  note n = mkdir_p_env [OF 0] write_txt_env(2) [OF 1] opt_srt_env(2) [OF 2] opt_vtt_env(2) [OF 3]
  have "w' = w0 \<or> w' = w1 \<or> w' = w2 \<or> w' = w3"
    using assms 0 1 2 3 unfolding gui_fallback_def Let_def gui_write_srt_def gui_write_vtt_def
    by (auto split: option.splits)
  then show ?thesis using n by auto
qed

lemma gui_run_faults:
  "length (faults w) \<le> length (faults (fst (gui_run home out_dir base srt vtt segs w))) + 8"
proof -
  obtain w1 r1 where 1: "mkdir_p (resolve_out home out_dir) w = (w1, r1)"
    by (meson surj_pair)
  obtain w2 r2 where 2: "gui_try_writes (resolve_out home out_dir) base srt vtt segs w1 = (w2, r2)"
    by (meson surj_pair)
  obtain w3 r3 where 3: "gui_fallback home base srt vtt segs w2 = (w3, r3)"
    by (meson surj_pair)
  note n = mkdir_p_env [OF 1] gui_try_writes_faults [OF 2] gui_fallback_faults [OF 3]
  have "fst (gui_run home out_dir base srt vtt segs w) = w1
      \<or> fst (gui_run home out_dir base srt vtt segs w) = w2
      \<or> fst (gui_run home out_dir base srt vtt segs w) = w3"
    using 1 2 3 unfolding gui_run_def Let_def
    by (auto split: option.splits sum.splits error.splits)
  then show ?thesis using n by auto
qed

lemma gui_run_fallback:
  assumes "mkdir_p (resolve_out home out_dir) w = (w1, None)"
    and "gui_try_writes (resolve_out home out_dir) base srt vtt segs w1 = (w2, Inl OSError)"
  shows "gui_run home out_dir base srt vtt segs w =
           (case gui_fallback home base srt vtt segs w2 of
              (w3, Inr msg) \<Rightarrow> (w3, Done msg)
            | (w3, Inl err) \<Rightarrow> (w3, Failed err))"
  using assms by (simp add: gui_run_def Let_def)

lemma gui_fallback_dir:
  assumes "gui_fallback home base srt vtt segs w = (w', Inr msg)"
  shows "DEFAULT_OUT home \<in> dirs w'"
proof -
  obtain w0 w1 w2 where
    0: "mkdir_p (DEFAULT_OUT home) w = (w0, None)" and
    1: "write_txt (joinpath (DEFAULT_OUT home) (base @ ''.txt'')) segs w0 = (w1, None)" and
    2: "(if srt then write_srt gui_srt_ts (joinpath (DEFAULT_OUT home) (base @ ''.srt'')) segs w1
         else (w1, None)) = (w2, None)" and
    3: "(if vtt then write_vtt gui_vtt_ts (joinpath (DEFAULT_OUT home) (base @ ''.vtt'')) segs w2
         else (w2, None)) = (w', None)"
    using gui_fallback_steps [OF assms] by blast
  have "dirs w' = dirs w0"
    using write_txt_env(1) [OF 1] opt_srt_env(1) [OF 2] opt_vtt_env(1) [OF 3] by simp
  then show ?thesis using mkdir_p_done(2) [OF 0] by simp
qed

section \<open>Claims on write failures\<close>

text \<open>
  C3, as claimed: when a write to the resolved directory fails, the writer does not pass
  the error on but writes everything again under the default directory. The command
  line has no such handler and no default directory: with the first \<^verbatim>\<open>open\<close> refused,
  \<^verbatim>\<open>main\<close> ends with the \<^verbatim>\<open>OSError\<close> and nothing is written anywhere.
\<close>

theorem cli_write_error_propagates:
  "cli_main_outputs ''a'' True True
     [\<lparr>seg_start = Float False 0 0, seg_end = Float False 1 0, seg_text = ''Hello''\<rparr>]
     \<lparr>files = Map.empty, dirs = {}, faults = [Fail_open]\<rparr>
   = (\<lparr>files = Map.empty, dirs = {}, faults = []\<rparr>, Inl OSError)"
  by (simp add: cli_main_outputs_def ev_io)

text \<open>
  C3, amended: in the desktop front-end, when the resolved directory has been made and a
  write into it raises \<^verbatim>\<open>OSError\<close>, \<^verbatim>\<open>run\<close> goes on with the default directory. If
  that second attempt succeeds, \<^verbatim>\<open>run\<close> ends with \<^verbatim>\<open>done\<close>, the default directory
  exists, the message lists the paths under it and every requested format is there in
  full. If the second attempt fails, \<^verbatim>\<open>run\<close> ends with \<^verbatim>\<open>failed\<close> and that error. A run
  makes at most eight operations on the file system (two \<^verbatim>\<open>mkdir\<close>, six writes), so
  nothing is tried a third time.
\<close>

theorem gui_write_failure_falls_back_once:
  assumes "CHR ''/'' \<notin> set base"
    and "mkdir_p (resolve_out home out_dir) w = (w1, None)"
    and "gui_try_writes (resolve_out home out_dir) base srt vtt segs w1 = (w2, Inl OSError)"
  shows "(\<forall>w3 msg. gui_fallback home base srt vtt segs w2 = (w3, Inr msg) \<longrightarrow>
            gui_run home out_dir base srt vtt segs w = (w3, Done msg)
          \<and> DEFAULT_OUT home \<in> dirs w3
          \<and> msg = ''Wrote (fallback): '' @ join_comma
              ([path_str (joinpath (DEFAULT_OUT home) (base @ ''.txt''))]
               @ (if srt then [path_str (joinpath (DEFAULT_OUT home) (base @ ''.srt''))] else [])
               @ (if vtt then [path_str (joinpath (DEFAULT_OUT home) (base @ ''.vtt''))] else []))
          \<and> files w3 (joinpath (DEFAULT_OUT home) (base @ ''.txt'')) = Some (fst (txt_loop segs []))
          \<and> (srt \<longrightarrow> files w3 (joinpath (DEFAULT_OUT home) (base @ ''.srt''))
                       = Some (fst (srt_loop gui_srt_ts 1 segs [])))
          \<and> (vtt \<longrightarrow> files w3 (joinpath (DEFAULT_OUT home) (base @ ''.vtt''))
                       = Some (fst (vtt_loop gui_vtt_ts segs ''WEBVTT\<newline>\<newline>''))))
       \<and> (\<forall>w3 err. gui_fallback home base srt vtt segs w2 = (w3, Inl err) \<longrightarrow>
            gui_run home out_dir base srt vtt segs w = (w3, Failed err))
       \<and> length (faults w) \<le> length (faults (fst (gui_run home out_dir base srt vtt segs w))) + 8"
proof (intro conjI allI impI)
  fix w3 msg
  assume f: "gui_fallback home base srt vtt segs w2 = (w3, Inr msg)"
  show "gui_run home out_dir base srt vtt segs w = (w3, Done msg)"
    unfolding gui_run_fallback [OF assms(2,3)] by (simp add: f)
  show "DEFAULT_OUT home \<in> dirs w3" by (rule gui_fallback_dir [OF f])
  obtain w0 w1' w2' where
    0: "mkdir_p (DEFAULT_OUT home) w2 = (w0, None)" and
    1: "write_txt (joinpath (DEFAULT_OUT home) (base @ ''.txt'')) segs w0 = (w1', None)" and
    2: "(if srt then write_srt gui_srt_ts (joinpath (DEFAULT_OUT home) (base @ ''.srt'')) segs w1'
         else (w1', None)) = (w2', None)" and
    3: "(if vtt then write_vtt gui_vtt_ts (joinpath (DEFAULT_OUT home) (base @ ''.vtt'')) segs w2'
         else (w2', None)) = (w3, None)" and
    4: "msg = ''Wrote (fallback): '' @ join_comma
              ([path_str (joinpath (DEFAULT_OUT home) (base @ ''.txt''))]
               @ (if srt then [path_str (joinpath (DEFAULT_OUT home) (base @ ''.srt''))] else [])
               @ (if vtt then [path_str (joinpath (DEFAULT_OUT home) (base @ ''.vtt''))] else []))"
    using gui_fallback_steps [OF f] by blast
  show "msg = ''Wrote (fallback): '' @ join_comma
              ([path_str (joinpath (DEFAULT_OUT home) (base @ ''.txt''))]
               @ (if srt then [path_str (joinpath (DEFAULT_OUT home) (base @ ''.srt''))] else [])
               @ (if vtt then [path_str (joinpath (DEFAULT_OUT home) (base @ ''.vtt''))] else []))"
    by (rule 4)
  show "files w3 (joinpath (DEFAULT_OUT home) (base @ ''.txt'')) = Some (fst (txt_loop segs []))"
    by (rule three_writes_files(1) [OF assms(1) 1 2 3])
  show "files w3 (joinpath (DEFAULT_OUT home) (base @ ''.srt''))
          = Some (fst (srt_loop gui_srt_ts 1 segs []))" if srt
    using three_writes_files(2) [OF assms(1) 1 2 3] that by simp
  show "files w3 (joinpath (DEFAULT_OUT home) (base @ ''.vtt''))
          = Some (fst (vtt_loop gui_vtt_ts segs ''WEBVTT\<newline>\<newline>''))" if vtt
    using three_writes_files(3) [OF assms(1) 1 2 3] that by simp
next
  fix w3 err
  assume f: "gui_fallback home base srt vtt segs w2 = (w3, Inl err)"
  show "gui_run home out_dir base srt vtt segs w = (w3, Failed err)"
    unfolding gui_run_fallback [OF assms(2,3)] by (simp add: f)
next
  show "length (faults w) \<le> length (faults (fst (gui_run home out_dir base srt vtt segs w))) + 8"
    by (rule gui_run_faults)
qed


theorem gui_write_failure_falls_back_once_witness:
  "snd (gui_run (Path ''/'' [''home'', ''u'']) ''/out'' ''a'' False False
          [\<lparr>seg_start = Float False 0 0, seg_end = Float False 1 0, seg_text = ''Hello''\<rparr>]
          \<lparr>files = Map.empty, dirs = {}, faults = [Io_ok, Fail_open]\<rparr>)
     = Done ''Wrote (fallback): /home/u/WhisperLite/a.txt''
   \<and> files (fst (gui_run (Path ''/'' [''home'', ''u'']) ''/out'' ''a'' False False
          [\<lparr>seg_start = Float False 0 0, seg_end = Float False 1 0, seg_text = ''Hello''\<rparr>]
          \<lparr>files = Map.empty, dirs = {}, faults = [Io_ok, Fail_open]\<rparr>))
         (Path ''/'' [''home'', ''u'', ''WhisperLite'', ''a.txt''])
     = Some ''Hello\<newline>''"
proof -
  define segs where "segs = [\<lparr>seg_start = Float False 0 0, seg_end = Float False 1 0, seg_text = ''Hello''\<rparr>]"
  define w :: "path world" where "w = \<lparr>files = Map.empty, dirs = {}, faults = [Io_ok, Fail_open]\<rparr>"
  define home where "home = Path ''/'' [''home'', ''u'']"
  define w1 where "w1 = fst (mkdir_p (resolve_out home ''/out'') w)"
  define w2 where "w2 = fst (gui_try_writes (resolve_out home ''/out'') ''a'' False False segs w1)"
  define w3 where "w3 = fst (gui_fallback home ''a'' False False segs w2)"
  have ns: "CHR ''/'' \<notin> set ''a''" by simp
  have ro: "resolve_out home ''/out'' = Path ''/'' [''out'']"
    by (simp add: resolve_out_def Path_of_def path_root_def path_parts_def)
  have w1: "w1 = \<lparr>files = Map.empty, dirs = set (ancestors (Path ''/'' [''out''])), faults = [Fail_open]\<rparr>"
    unfolding w1_def ro by (simp add: w_def mkdir_p_def next_fault_def consume_def)
  have m: "mkdir_p (resolve_out home ''/out'') w = (w1, None)"
    unfolding w1_def ro by (simp add: w_def mkdir_p_def next_fault_def consume_def)
  have w2: "w2 = \<lparr>files = Map.empty, dirs = set (ancestors (Path ''/'' [''out''])), faults = []\<rparr>"
    unfolding w2_def ro w1
    by (simp add: gui_try_writes_def write_txt_def open_write_def next_fault_def consume_def)
  have t: "gui_try_writes (resolve_out home ''/out'') ''a'' False False segs w1 = (w2, Inl OSError)"
    unfolding w2_def unfolding ro w1
    by (simp add: gui_try_writes_def write_txt_def open_write_def next_fault_def consume_def)
  have f: "gui_fallback home ''a'' False False segs w2
      = (w3, Inr ''Wrote (fallback): /home/u/WhisperLite/a.txt'')"
    unfolding w3_def unfolding w2
    by (simp add: prod_eq_iff home_def segs_def gui_fallback_def ev_io)
  have tx: "fst (txt_loop segs []) = ''Hello\<newline>''"
    by (simp add: segs_def strip_Hello)
  have p: "joinpath (DEFAULT_OUT home) (''a'' @ ''.txt'') = Path ''/'' [''home'', ''u'', ''WhisperLite'', ''a.txt'']"
    by (simp add: home_def DEFAULT_OUT_def path_root_def path_parts_def)
  note T = gui_write_failure_falls_back_once [OF ns m t, THEN conjunct1, rule_format, OF f]
  have r: "gui_run home ''/out'' ''a'' False False segs w
      = (w3, Done ''Wrote (fallback): /home/u/WhisperLite/a.txt'')"
    by (rule T [THEN conjunct1])
  have fl: "files w3 (Path ''/'' [''home'', ''u'', ''WhisperLite'', ''a.txt'']) = Some ''Hello\<newline>''"
    using T [THEN conjunct2, THEN conjunct2, THEN conjunct2, THEN conjunct1]
    unfolding p tx .
  show ?thesis
    using r fl unfolding segs_def w_def home_def by simp
qed

text \<open>
  C9, as claimed: whatever fails during the retry under the default directory, the files
  written at the primary location stay as they were. When the resolved directory is the
  default directory itself, the retry opens the same files again: here the \<^verbatim>\<open>.txt\<close>
  file is written in full, the \<^verbatim>\<open>.srt\<close> write is refused, and the retry truncates the
  \<^verbatim>\<open>.txt\<close> file and fails before anything reaches it.
\<close>

theorem fallback_into_same_directory_truncates:
  "resolve_out (Path ''/'' [''home'', ''u'']) ''/home/u/WhisperLite''
     = DEFAULT_OUT (Path ''/'' [''home'', ''u''])
   \<and> gui_try_writes (Path ''/'' [''home'', ''u'', ''WhisperLite'']) ''a'' True False
        [\<lparr>seg_start = Float False 0 0, seg_end = Float False 1 0, seg_text = ''Hello''\<rparr>]
        \<lparr>files = Map.empty, dirs = {}, faults = [Io_ok, Fail_open, Io_ok, Fail_write 0]\<rparr>
     = (\<lparr>files = [Path ''/'' [''home'', ''u'', ''WhisperLite'', ''a.txt''] \<mapsto> ''Hello\<newline>''],
          dirs = {}, faults = [Io_ok, Fail_write 0]\<rparr>, Inl OSError)
   \<and> snd (gui_run (Path ''/'' [''home'', ''u'']) ''/home/u/WhisperLite'' ''a'' True False
        [\<lparr>seg_start = Float False 0 0, seg_end = Float False 1 0, seg_text = ''Hello''\<rparr>]
        \<lparr>files = Map.empty, dirs = {}, faults = [Io_ok, Io_ok, Fail_open, Io_ok, Fail_write 0]\<rparr>)
     = Failed OSError
   \<and> files (fst (gui_run (Path ''/'' [''home'', ''u'']) ''/home/u/WhisperLite'' ''a'' True False
        [\<lparr>seg_start = Float False 0 0, seg_end = Float False 1 0, seg_text = ''Hello''\<rparr>]
        \<lparr>files = Map.empty, dirs = {}, faults = [Io_ok, Io_ok, Fail_open, Io_ok, Fail_write 0]\<rparr>))
        (Path ''/'' [''home'', ''u'', ''WhisperLite'', ''a.txt''])
     = Some []"
proof -
  have ro: "resolve_out (Path ''/'' [''home'', ''u'']) ''/home/u/WhisperLite''
      = Path ''/'' [''home'', ''u'', ''WhisperLite'']"
    by (simp add: resolve_out_def Path_of_def path_root_def path_parts_def)
  have d: "DEFAULT_OUT (Path ''/'' [''home'', ''u'']) = Path ''/'' [''home'', ''u'', ''WhisperLite'']"
    by (simp add: DEFAULT_OUT_def path_root_def path_parts_def)
  have a: "resolve_out (Path ''/'' [''home'', ''u'']) ''/home/u/WhisperLite''
     = DEFAULT_OUT (Path ''/'' [''home'', ''u''])"
    by (simp only: ro d)
  have b: "gui_try_writes (Path ''/'' [''home'', ''u'', ''WhisperLite'']) ''a'' True False
        [\<lparr>seg_start = Float False 0 0, seg_end = Float False 1 0, seg_text = ''Hello''\<rparr>]
        \<lparr>files = Map.empty, dirs = {}, faults = [Io_ok, Fail_open, Io_ok, Fail_write 0]\<rparr>
     = (\<lparr>files = [Path ''/'' [''home'', ''u'', ''WhisperLite'', ''a.txt''] \<mapsto> ''Hello\<newline>''],
          dirs = {}, faults = [Io_ok, Fail_write 0]\<rparr>, Inl OSError)"
    by (simp add: gui_try_writes_def ev_io ts_examples)
  have c: "snd (gui_run (Path ''/'' [''home'', ''u'']) ''/home/u/WhisperLite'' ''a'' True False
        [\<lparr>seg_start = Float False 0 0, seg_end = Float False 1 0, seg_text = ''Hello''\<rparr>]
        \<lparr>files = Map.empty, dirs = {}, faults = [Io_ok, Io_ok, Fail_open, Io_ok, Fail_write 0]\<rparr>)
     = Failed OSError"
    unfolding gui_run_def ro
    by (simp add: gui_try_writes_def gui_fallback_def d ev_io ts_examples del: ancestors.simps)
  have e: "files (fst (gui_run (Path ''/'' [''home'', ''u'']) ''/home/u/WhisperLite'' ''a'' True False
        [\<lparr>seg_start = Float False 0 0, seg_end = Float False 1 0, seg_text = ''Hello''\<rparr>]
        \<lparr>files = Map.empty, dirs = {}, faults = [Io_ok, Io_ok, Fail_open, Io_ok, Fail_write 0]\<rparr>))
        (Path ''/'' [''home'', ''u'', ''WhisperLite'', ''a.txt''])
     = Some []"
    unfolding gui_run_def ro
    by (simp add: gui_try_writes_def gui_fallback_def d ev_io ts_examples del: ancestors.simps)
  show ?thesis using a b c e by (intro conjI)
qed

section \<open>The desktop run on a disk that resolves path values\<close>

lemma mkdir_p_on_frame:
  assumes "mkdir_p_on node_of p w = (w', r)"
  shows "faults w' = tl (faults w)" and "files w' = files w"
  using assms by (auto simp: mkdir_p_on_def consume_def split: io_outcome.splits)

lemma mkdir_p_on_id: "mkdir_p_on (\<lambda>p. p) p w = mkdir_p p w"
  by (simp add: mkdir_p_on_def mkdir_p_def split: io_outcome.splits)

lemma gui_try_writes_on_id:
  "gui_try_writes_on (\<lambda>p. p) out base srt vtt segs w = gui_try_writes out base srt vtt segs w"
  unfolding gui_try_writes_on_def gui_try_writes_def gui_write_srt_def gui_write_vtt_def
  by (rule refl)

lemma gui_fallback_on_id:
  "gui_fallback_on (\<lambda>p. p) home base srt vtt segs w = gui_fallback home base srt vtt segs w"
  unfolding gui_fallback_on_def gui_fallback_def mkdir_p_on_id gui_write_srt_def
    gui_write_vtt_def
  by (rule refl)

lemma gui_run_on_id:
  "gui_run_on (\<lambda>p. p) home out_dir base srt vtt segs w = gui_run home out_dir base srt vtt segs w"
  unfolding gui_run_on_def gui_run_def mkdir_p_on_id gui_try_writes_on_id gui_fallback_on_id
  by (rule refl)

lemma gui_fallback_on_touches:
  assumes "gui_fallback_on node_of home base srt vtt segs w = (w', r)"
  shows "length (faults w) \<le> length (faults w') + 4"
    and "q \<noteq> node_of (joinpath (DEFAULT_OUT home) (base @ ''.txt'')) \<Longrightarrow>
         q \<noteq> node_of (joinpath (DEFAULT_OUT home) (base @ ''.srt'')) \<Longrightarrow>
         q \<noteq> node_of (joinpath (DEFAULT_OUT home) (base @ ''.vtt'')) \<Longrightarrow>
         files w' q = files w q"
proof -
  obtain w0 r0 where 0: "mkdir_p_on node_of (DEFAULT_OUT home) w = (w0, r0)"
    by (meson surj_pair)
  obtain w1 r1 where
    1: "write_txt (node_of (joinpath (DEFAULT_OUT home) (base @ ''.txt''))) segs w0 = (w1, r1)"
    by (meson surj_pair)
  obtain w2 r2 where
    2: "(if srt then write_srt gui_srt_ts (node_of (joinpath (DEFAULT_OUT home) (base @ ''.srt'')))
                       segs w1
         else (w1, None)) = (w2, r2)"
    by (meson surj_pair)
  obtain w3 r3 where
    3: "(if vtt then write_vtt gui_vtt_ts (node_of (joinpath (DEFAULT_OUT home) (base @ ''.vtt'')))
                       segs w2
         else (w2, None)) = (w3, r3)"
    by (meson surj_pair)
  have w': "w' = w0 \<or> w' = w1 \<or> w' = w2 \<or> w' = w3"
    using assms 0 1 2 3 unfolding gui_fallback_on_def Let_def
    by (auto split: option.splits)
  have n0: "length (faults w) \<le> length (faults w0) + 1"
    using mkdir_p_on_frame(1) [OF 0] by simp
  note n = n0 write_txt_env(2) [OF 1] opt_srt_env(2) [OF 2] opt_vtt_env(2) [OF 3]
  show "length (faults w) \<le> length (faults w') + 4" using w' n by auto
  assume q: "q \<noteq> node_of (joinpath (DEFAULT_OUT home) (base @ ''.txt''))"
    "q \<noteq> node_of (joinpath (DEFAULT_OUT home) (base @ ''.srt''))"
    "q \<noteq> node_of (joinpath (DEFAULT_OUT home) (base @ ''.vtt''))"
  have f0: "files w0 q = files w q" using mkdir_p_on_frame(2) [OF 0] by simp
  have f1: "files w1 q = files w0 q" by (rule write_txt_frame [OF 1 q(1)])
  have f2: "files w2 q = files w1 q" by (rule opt_srt_frame(1) [OF 2 q(2)])
  have f3: "files w3 q = files w2 q" by (rule opt_vtt_frame(1) [OF 3 q(3)])
  show "files w' q = files w q" using w' f0 f1 f2 f3 by auto
qed

lemma gui_run_on_fallback:
  assumes "mkdir_p_on node_of (resolve_out home out_dir) w = (w1, None)"
    and "gui_try_writes_on node_of (resolve_out home out_dir) base srt vtt segs w1
           = (w2, Inl OSError)"
  shows "gui_run_on node_of home out_dir base srt vtt segs w =
           (case gui_fallback_on node_of home base srt vtt segs w2 of
              (w3, Inr msg) \<Rightarrow> (w3, Done msg)
            | (w3, Inl err) \<Rightarrow> (w3, Failed err))"
  using assms by (simp add: gui_run_on_def Let_def)

text \<open>
  A disk where \<^verbatim>\<open>/home/u/x/..\<close> is \<^verbatim>\<open>/home/u\<close>: the resolution drops the components
  \<^verbatim>\<open>x\<close> and \<^verbatim>\<open>..\<close>. The output directory \<^verbatim>\<open>/home/u/x/../WhisperLite\<close> is not the
  default directory as a path value, yet the retry truncates the \<^verbatim>\<open>.txt\<close> file the
  first attempt wrote.
\<close>

lemma retry_through_dotdot_truncates:
  "resolve_out (Path ''/'' [''home'', ''u'']) ''/home/u/x/../WhisperLite''
     \<noteq> DEFAULT_OUT (Path ''/'' [''home'', ''u''])
   \<and> files (fst (gui_run_on
          (\<lambda>p. case p of Path r ps \<Rightarrow> Path r (filter (\<lambda>c. c \<noteq> ''x'' \<and> c \<noteq> ''..'') ps))
          (Path ''/'' [''home'', ''u'']) ''/home/u/x/../WhisperLite'' ''a'' True False
          [\<lparr>seg_start = Float False 0 0, seg_end = Float False 1 0, seg_text = ''Hello''\<rparr>]
          \<lparr>files = Map.empty, dirs = {}, faults = [Io_ok, Io_ok, Fail_open, Io_ok, Fail_write 0]\<rparr>))
        (Path ''/'' [''home'', ''u'', ''WhisperLite'', ''a.txt''])
     = Some []"
proof -
  have ro: "resolve_out (Path ''/'' [''home'', ''u'']) ''/home/u/x/../WhisperLite''
      = Path ''/'' [''home'', ''u'', ''x'', ''..'', ''WhisperLite'']"
    by (simp add: resolve_out_def Path_of_def path_root_def path_parts_def)
  have d: "DEFAULT_OUT (Path ''/'' [''home'', ''u'']) = Path ''/'' [''home'', ''u'', ''WhisperLite'']"
    by (simp add: DEFAULT_OUT_def path_root_def path_parts_def)
  have a: "resolve_out (Path ''/'' [''home'', ''u'']) ''/home/u/x/../WhisperLite''
     \<noteq> DEFAULT_OUT (Path ''/'' [''home'', ''u''])"
    unfolding ro d by simp
  have b: "files (fst (gui_run_on
          (\<lambda>p. case p of Path r ps \<Rightarrow> Path r (filter (\<lambda>c. c \<noteq> ''x'' \<and> c \<noteq> ''..'') ps))
          (Path ''/'' [''home'', ''u'']) ''/home/u/x/../WhisperLite'' ''a'' True False
          [\<lparr>seg_start = Float False 0 0, seg_end = Float False 1 0, seg_text = ''Hello''\<rparr>]
          \<lparr>files = Map.empty, dirs = {}, faults = [Io_ok, Io_ok, Fail_open, Io_ok, Fail_write 0]\<rparr>))
        (Path ''/'' [''home'', ''u'', ''WhisperLite'', ''a.txt''])
     = Some []"
    unfolding gui_run_on_def ro
    by (simp add: gui_try_writes_on_def gui_fallback_on_def mkdir_p_on_def d
          write_txt_def write_srt_def write_vtt_def open_write_def next_fault_def consume_def
          path_root_def path_parts_def Let_def strip_def isspace_def ts_examples
          del: ancestors.simps)
  show ?thesis using a b by (intro conjI)
qed

text \<open>
  C9, amended: a file of the resolved directory that is, on disk, none of the three files
  the retry opens under the default directory stays exactly as the first attempt left it,
  whether the retry succeeds or fails and wherever it fails; after the first attempt has
  failed, the run makes at most four more operations on the file system (one \<^verbatim>\<open>mkdir\<close>
  and one write for each format), so no format is written again on its own. On disk:
  the hypothesis is on the files the paths resolve to, not on the path values, since
  \<^verbatim>\<open>..\<close>, a link or a relative path can lead to the default directory as well.
\<close>

theorem fallback_leaves_primary_files:
  assumes "mkdir_p_on node_of (resolve_out home out_dir) w = (w1, None)"
    and "gui_try_writes_on node_of (resolve_out home out_dir) base srt vtt segs w1
           = (w2, Inl OSError)"
    and "node_of (joinpath (resolve_out home out_dir) (base @ ext))
           \<noteq> node_of (joinpath (DEFAULT_OUT home) (base @ ''.txt''))"
    and "node_of (joinpath (resolve_out home out_dir) (base @ ext))
           \<noteq> node_of (joinpath (DEFAULT_OUT home) (base @ ''.srt''))"
    and "node_of (joinpath (resolve_out home out_dir) (base @ ext))
           \<noteq> node_of (joinpath (DEFAULT_OUT home) (base @ ''.vtt''))"
  shows "files (fst (gui_run_on node_of home out_dir base srt vtt segs w))
             (node_of (joinpath (resolve_out home out_dir) (base @ ext)))
           = files w2 (node_of (joinpath (resolve_out home out_dir) (base @ ext)))
       \<and> length (faults w2)
           \<le> length (faults (fst (gui_run_on node_of home out_dir base srt vtt segs w))) + 4"
proof -
  obtain w3 r where f: "gui_fallback_on node_of home base srt vtt segs w2 = (w3, r)"
    by (meson surj_pair)
  have run: "fst (gui_run_on node_of home out_dir base srt vtt segs w) = w3"
    unfolding gui_run_on_fallback [OF assms(1,2)] by (simp add: f split: sum.splits)
  have "files w3 (node_of (joinpath (resolve_out home out_dir) (base @ ext)))
      = files w2 (node_of (joinpath (resolve_out home out_dir) (base @ ext)))"
    by (rule gui_fallback_on_touches(2) [OF f assms(3,4,5)])
  then show ?thesis using gui_fallback_on_touches(1) [OF f] by (simp add: run)
qed

theorem fallback_leaves_primary_files_witness:
  "snd (gui_run_on (\<lambda>p. p) (Path ''/'' [''home'', ''u'']) ''/out'' ''a'' True False
        [\<lparr>seg_start = Float False 0 0, seg_end = Float False 1 0, seg_text = ''Hello''\<rparr>]
        \<lparr>files = Map.empty, dirs = {}, faults = [Io_ok, Io_ok, Fail_open, Io_ok, Fail_write 2]\<rparr>)
     = Failed OSError
   \<and> files (fst (gui_run_on (\<lambda>p. p) (Path ''/'' [''home'', ''u'']) ''/out'' ''a'' True False
        [\<lparr>seg_start = Float False 0 0, seg_end = Float False 1 0, seg_text = ''Hello''\<rparr>]
        \<lparr>files = Map.empty, dirs = {}, faults = [Io_ok, Io_ok, Fail_open, Io_ok, Fail_write 2]\<rparr>))
        (Path ''/'' [''out'', ''a.txt''])
     = Some ''Hello\<newline>''
   \<and> files (fst (gui_run_on (\<lambda>p. p) (Path ''/'' [''home'', ''u'']) ''/out'' ''a'' True False
        [\<lparr>seg_start = Float False 0 0, seg_end = Float False 1 0, seg_text = ''Hello''\<rparr>]
        \<lparr>files = Map.empty, dirs = {}, faults = [Io_ok, Io_ok, Fail_open, Io_ok, Fail_write 2]\<rparr>))
        (Path ''/'' [''home'', ''u'', ''WhisperLite'', ''a.txt''])
     = Some ''He''"
proof -
  define segs where "segs = [\<lparr>seg_start = Float False 0 0, seg_end = Float False 1 0, seg_text = ''Hello''\<rparr>]"
  define w :: "path world"
    where "w = \<lparr>files = Map.empty, dirs = {}, faults = [Io_ok, Io_ok, Fail_open, Io_ok, Fail_write 2]\<rparr>"
  define home where "home = Path ''/'' [''home'', ''u'']"
  define w1 :: "path world"
    where "w1 = \<lparr>files = Map.empty, dirs = set (ancestors (Path ''/'' [''out''])),
                 faults = [Io_ok, Fail_open, Io_ok, Fail_write 2]\<rparr>"
  define w2 :: "path world"
    where "w2 = \<lparr>files = [Path ''/'' [''out'', ''a.txt''] \<mapsto> ''Hello\<newline>''],
                 dirs = set (ancestors (Path ''/'' [''out''])), faults = [Io_ok, Fail_write 2]\<rparr>"
  have ro: "resolve_out home ''/out'' = Path ''/'' [''out'']"
    by (simp add: resolve_out_def Path_of_def path_root_def path_parts_def)
  have d: "DEFAULT_OUT home = Path ''/'' [''home'', ''u'', ''WhisperLite'']"
    by (simp add: home_def DEFAULT_OUT_def path_root_def path_parts_def)
  have m: "mkdir_p_on (\<lambda>p. p) (resolve_out home ''/out'') w = (w1, None)"
    unfolding ro mkdir_p_on_id by (simp add: w_def w1_def mkdir_p_def next_fault_def consume_def)
  have t: "gui_try_writes_on (\<lambda>p. p) (resolve_out home ''/out'') ''a'' True False segs w1
      = (w2, Inl OSError)"
    unfolding ro gui_try_writes_on_id
    by (simp add: w1_def w2_def segs_def gui_try_writes_def ev_io ts_examples del: ancestors.simps)
  have p: "joinpath (resolve_out home ''/out'') (''a'' @ ''.txt'') = Path ''/'' [''out'', ''a.txt'']"
    unfolding ro by (simp add: path_root_def path_parts_def)
  have q: "joinpath (DEFAULT_OUT home) (''a'' @ ''.txt'') = Path ''/'' [''home'', ''u'', ''WhisperLite'', ''a.txt'']"
    "joinpath (DEFAULT_OUT home) (''a'' @ ''.srt'') = Path ''/'' [''home'', ''u'', ''WhisperLite'', ''a.srt'']"
    "joinpath (DEFAULT_OUT home) (''a'' @ ''.vtt'') = Path ''/'' [''home'', ''u'', ''WhisperLite'', ''a.vtt'']"
    unfolding d by (simp_all add: path_root_def path_parts_def)
  have n1: "joinpath (resolve_out home ''/out'') (''a'' @ ''.txt'')
      \<noteq> joinpath (DEFAULT_OUT home) (''a'' @ ''.txt'')" unfolding p q by simp
  have n2: "joinpath (resolve_out home ''/out'') (''a'' @ ''.txt'')
      \<noteq> joinpath (DEFAULT_OUT home) (''a'' @ ''.srt'')" unfolding p q by simp
  have n3: "joinpath (resolve_out home ''/out'') (''a'' @ ''.txt'')
      \<noteq> joinpath (DEFAULT_OUT home) (''a'' @ ''.vtt'')" unfolding p q by simp
  note T = fallback_leaves_primary_files
    [where node_of = "\<lambda>p. p" and ext = "''.txt''", OF m t n1 n2 n3, THEN conjunct1]
  have fl: "files (fst (gui_run_on (\<lambda>p. p) home ''/out'' ''a'' True False segs w))
      (Path ''/'' [''out'', ''a.txt'']) = Some ''Hello\<newline>''"
    using T unfolding p by (simp add: w2_def)
  have r: "snd (gui_run_on (\<lambda>p. p) home ''/out'' ''a'' True False segs w) = Failed OSError"
    unfolding gui_run_on_fallback [OF m t] gui_fallback_on_id
    by (simp add: w2_def segs_def gui_fallback_def d ev_io ts_examples split_beta
          del: ancestors.simps)
  have fb: "files (fst (gui_run_on (\<lambda>p. p) home ''/out'' ''a'' True False segs w))
      (Path ''/'' [''home'', ''u'', ''WhisperLite'', ''a.txt'']) = Some ''He''"
    unfolding gui_run_on_fallback [OF m t] gui_fallback_on_id
    by (simp add: w2_def segs_def home_def gui_fallback_def ev_io ts_examples split_beta
          del: ancestors.simps)
  show ?thesis
    using r fl fb unfolding segs_def w_def home_def by simp
qed

end
